theory Spec2Isabelle
  imports Main "HOL-Library.Sublist" "HOL-Library.Char_ord" "HOL-Library.List_Lexorder"
    "HOL-Library.Product_Lexorder"
begin

section \<open>Python strings\<close>

text \<open>
  A Python \<open>str\<close> is modelled as a \<open>string\<close> whose characters are the code points
  below 256. The operations below are the ones the source calls, restricted to that
  range: \<open>str.lower\<close>, \<open>str.strip\<close>, \<open>str.rstrip(chars)\<close>, \<open>str.split(sep)\<close>,
  \<open>str.split(sep, 1)\<close>, \<open>sep.join\<close>, \<open>str.startswith\<close> (the library's \<open>prefix\<close>) and
  the substring test \<open>pat in s\<close> (the library's \<open>sublist\<close>).
\<close>

definition py_isspace :: "char \<Rightarrow> bool" where
  "py_isspace c = (c \<in> set [CHR 0x09, CHR 0x0A, CHR 0x0B, CHR 0x0C, CHR 0x0D,
                             CHR 0x1C, CHR 0x1D, CHR 0x1E, CHR 0x1F, CHR 0x20,
                             CHR 0x85, CHR 0xA0])"

definition py_lower_char :: "char \<Rightarrow> char" where
  "py_lower_char c =
     (let n = (of_char c :: nat)
      in if (65 \<le> n \<and> n \<le> 90) \<or> (192 \<le> n \<and> n \<le> 222 \<and> n \<noteq> 215)
         then char_of (n + 32) else c)"

definition lower :: "string \<Rightarrow> string" where
  "lower s = map py_lower_char s"

definition strip :: "string \<Rightarrow> string" where
  "strip s = rev (dropWhile py_isspace (rev (dropWhile py_isspace s)))"

definition rstrip :: "string \<Rightarrow> string \<Rightarrow> string" where
  "rstrip chars s = rev (dropWhile (\<lambda>c. c \<in> set chars) (rev s))"

fun split :: "char \<Rightarrow> string \<Rightarrow> string list" where
  "split sep [] = [[]]"
| "split sep (c # cs) =
     (if c = sep then [] # split sep cs
      else (case split sep cs of
              [] \<Rightarrow> [[c]]
            | w # ws \<Rightarrow> (c # w) # ws))"

definition split_once :: "char \<Rightarrow> string \<Rightarrow> string \<times> string" where
  "split_once sep s = (takeWhile (\<lambda>c. c \<noteq> sep) s, tl (dropWhile (\<lambda>c. c \<noteq> sep) s))"

fun join :: "string \<Rightarrow> string list \<Rightarrow> string" where
  "join sep [] = []"
| "join sep [w] = w"
| "join sep (w # ws) = w @ sep @ join sep ws"

section \<open>Unsubscribe link processor (\<open>unsubscribe_processor.py\<close>)\<close>

subsection \<open>\<open>is_valid_unsubscribe_url\<close>\<close>

definition suspicious_patterns :: "string list" where
  "suspicious_patterns = [''javascript:'', ''data:'', ''file:'', ''ftp:'']"

definition is_valid_unsubscribe_url :: "string \<Rightarrow> bool" where
  "is_valid_unsubscribe_url url =
     (if url = [] \<or> length url < 10 then False
      else if \<not> (prefix ''http://'' (lower url) \<or> prefix ''https://'' (lower url)) then False
      else if \<not> sublist ''unsubscribe'' (lower url) then False
      else if list_ex (\<lambda>pattern. sublist pattern (lower url)) suspicious_patterns then False
      else True)"

subsection \<open>\<open>validate_and_clean_links\<close>\<close>

definition tracking_params :: "string list" where
  "tracking_params = [''utm_source'', ''utm_medium'', ''utm_campaign'', ''utm_content'', ''utm_term'']"

text \<open>The name of a parameter is \<open>param.split('=')[0]\<close>.\<close>

definition param_name :: "string \<Rightarrow> string" where
  "param_name param = takeWhile (\<lambda>c. c \<noteq> CHR ''='') param"

text \<open>The inner loop over \<open>param_pairs\<close>, appending to \<open>filtered_params\<close>.\<close>

fun filter_params :: "string list \<Rightarrow> string list" where
  "filter_params [] = []"
| "filter_params (param # rest) =
     (if CHR ''='' \<in> set param
      then (if param_name param \<notin> set tracking_params
            then param # filter_params rest
            else filter_params rest)
      else filter_params rest)"

text \<open>The body of the outer loop for a link that passed validation.\<close>

definition clean_link :: "string \<Rightarrow> string" where
  "clean_link link =
     (let cleaned_link = strip link
      in if CHR ''?'' \<in> set cleaned_link
         then (let (base_url, params) = split_once CHR ''?'' cleaned_link;
                   param_pairs = split CHR ''&'' params;
                   filtered_params = filter_params param_pairs
               in if filtered_params \<noteq> []
                  then base_url @ ''?'' @ join ''&'' filtered_params
                  else base_url)
         else cleaned_link)"

fun validate_and_clean_links :: "string list \<Rightarrow> string list" where
  "validate_and_clean_links [] = []"
| "validate_and_clean_links (link # links) =
     (if is_valid_unsubscribe_url link
      then clean_link link # validate_and_clean_links links
      else validate_and_clean_links links)"

subsection \<open>\<open>extract_unsubscribe_links\<close>\<close>

text \<open>
  The pattern is \<^verbatim>\<open>https?://[^\s<>"]+unsubscribe[^\s<>"]*\<close>, matched ignoring case.
  \<open>url_char\<close> is the character class \<^verbatim>\<open>[^\s<>"]\<close>.

  A match that starts at the head of \<open>s\<close> consumes the scheme (\<open>http://\<close> or
  \<open>https://\<close>, 7 or 8 characters) and then only characters of the class, since every
  character of \<open>unsubscribe\<close> is in the class too. Both repetitions are greedy, so when
  \<open>unsubscribe\<close> occurs in the maximal run of class characters after the scheme, at
  least one character into the run (the \<open>+\<close>), the match is the scheme followed by the
  whole run; otherwise there is no match at this position.
\<close>

definition url_char :: "char \<Rightarrow> bool" where
  "url_char c = (\<not> (py_isspace c \<or> c = CHR ''<'' \<or> c = CHR ''>'' \<or> c = CHR 0x22))"

definition match_at :: "string \<Rightarrow> string option" where
  "match_at s =
     (let scheme = (if prefix ''https://'' (lower s) then Some (8::nat)
                    else if prefix ''http://'' (lower s) then Some 7
                    else None)
      in case scheme of
           None \<Rightarrow> None
         | Some k \<Rightarrow>
             (let run = takeWhile url_char (drop k s)
              in if run \<noteq> [] \<and> sublist ''unsubscribe'' (lower (tl run))
                 then Some (take k s @ run) else None))"

text \<open>
  \<open>re.findall\<close>: scan from the left; a match is recorded and the scan resumes after
  it, otherwise the scan moves one character on. The first argument counts the
  characters still covered by the last match.
\<close>

fun findall_from :: "nat \<Rightarrow> string \<Rightarrow> string list" where
  "findall_from k [] = []"
| "findall_from (Suc k) (c # cs) = findall_from k cs"
| "findall_from 0 (c # cs) =
     (case match_at (c # cs) of
        None \<Rightarrow> findall_from 0 cs
      | Some m \<Rightarrow> m # findall_from (length m - 1) cs)"

definition findall :: "string \<Rightarrow> string list" where
  "findall s = findall_from 0 s"

text \<open>The loop over the matches, with \<open>seen_links\<close> as the accumulator.\<close>

fun unique_valid :: "string list \<Rightarrow> string list \<Rightarrow> string list" where
  "unique_valid seen_links [] = []"
| "unique_valid seen_links (m # matches) =
     (let cleaned_url = rstrip ''.,;!?)'' m
      in if is_valid_unsubscribe_url cleaned_url \<and> cleaned_url \<notin> set seen_links
         then cleaned_url # unique_valid (cleaned_url # seen_links) matches
         else unique_valid seen_links matches)"

definition extract_unsubscribe_links :: "string \<Rightarrow> string list" where
  "extract_unsubscribe_links email_content =
     (if email_content = [] then [] else unique_valid [] (findall email_content))"

section \<open>The IMAP session (\<open>imap_connection.py\<close>)\<close>

text \<open>
  The mail server and \<open>imaplib\<close> are the environment. A server is a transition
  function from a server state and a command to a reply and the next server state;
  nothing else is assumed about it. A reply is an exception raised by \<open>imaplib\<close>
  (\<open>imaplib.IMAP4.error\<close> or any other exception) or a response \<open>(typ, data)\<close>:
  the flag says whether \<open>typ\<close> is \<open>'OK'\<close>, the payload is the part of \<open>data\<close> the
  caller reads. For \<open>LIST\<close> the payload holds the folder names that \<open>list_folders\<close>
  parses out of the reply lines; for \<open>STORE\<close> it holds the identifiers whose flags the
  server reports as updated.
\<close>

datatype cmd =
    Connect
  | Login
  | Noop
  | Close
  | Logout
  | Select string
  | Search string
  | Fetch string string
  | Store string string string
  | Expunge
  | ListFolders

datatype payload =
    NoData
  | Count "nat option"
  | Ids "string list"
  | Message "string option"
  | Folders "string list"
  | Flagged "string list"

datatype reply = RaiseIMAP | RaiseOther | Resp bool payload

type_synonym event = "cmd \<times> reply"

type_synonym 's imap = "'s \<Rightarrow> cmd \<Rightarrow> reply \<times> 's"

text \<open>
  The two objects of a run, \<open>GmailIMAPConnection\<close> and \<open>EmailOperations\<close>, as one
  record: \<open>connection\<close> says whether \<open>self.connection\<close> is not \<open>None\<close>,
  \<open>handle\<close> numbers the \<open>IMAP4_SSL\<close> objects created so far, the last of them
  being the one \<open>self.connection\<close> holds, and \<open>emails_deleted\<close> is
  \<open>operation_summary['emails_deleted']\<close>. Credentials and the server address play no
  part in what follows and are left out.
\<close>

record 's session =
  server :: 's
  connection :: bool
  handle :: nat
  emails_deleted :: nat

text \<open>
  A method is a function from the session to its return value, the commands it sent
  with their replies, in order, and the session afterwards.
\<close>

type_synonym ('s, 'a) io = "'s session \<Rightarrow> 'a \<times> event list \<times> 's session"

definition ret :: "'a \<Rightarrow> ('s, 'a) io" where
  "ret x = (\<lambda>s. (x, [], s))"

definition bind :: "('s, 'a) io \<Rightarrow> ('a \<Rightarrow> ('s, 'b) io) \<Rightarrow> ('s, 'b) io" where
  "bind m f = (\<lambda>s. case m s of (x, t1, s1) \<Rightarrow> (case f x s1 of (y, t2, s2) \<Rightarrow> (y, t1 @ t2, s2)))"

definition call :: "'s imap \<Rightarrow> cmd \<Rightarrow> ('s, reply) io" where
  "call S c = (\<lambda>s. case S (server s) c of (r, sv) \<Rightarrow> (r, [(c, r)], s\<lparr>server := sv\<rparr>))"

text \<open>Reading \<open>self.connection\<close>: whether it is a handle.\<close>

definition has_connection :: "('s, bool) io" where
  "has_connection = (\<lambda>s. (connection s, [], s))"

definition set_connection :: "bool \<Rightarrow> ('s, unit) io" where
  "set_connection b = (\<lambda>s. ((), [], s\<lparr>connection := b\<rparr>))"

text \<open>\<open>self.connection = imaplib.IMAP4_SSL(...)\<close> returned: a new handle is bound.\<close>

definition new_handle :: "('s, unit) io" where
  "new_handle = (\<lambda>s. ((), [], s\<lparr>connection := True, handle := Suc (handle s)\<rparr>))"

text \<open>The handle a method holds in a local variable.\<close>

definition current_handle :: "('s, nat) io" where
  "current_handle = (\<lambda>s. (handle s, [], s))"

definition set_emails_deleted :: "nat \<Rightarrow> ('s, unit) io" where
  "set_emails_deleted n = (\<lambda>s. ((), [], s\<lparr>emails_deleted := n\<rparr>))"

definition res :: "('s, 'a) io \<Rightarrow> 's session \<Rightarrow> 'a" where
  "res m s = fst (m s)"

definition evs :: "('s, 'a) io \<Rightarrow> 's session \<Rightarrow> event list" where
  "evs m s = fst (snd (m s))"

definition post :: "('s, 'a) io \<Rightarrow> 's session \<Rightarrow> 's session" where
  "post m s = snd (snd (m s))"

text \<open>\<open>result[0] == 'OK'\<close>.\<close>

definition is_ok :: "reply \<Rightarrow> bool" where
  "is_ok r = (case r of Resp b _ \<Rightarrow> b | _ \<Rightarrow> False)"

text \<open>
  \<open>result[0] == 'OK'\<close> and \<open>int(result[1][0])\<close> does not raise: the test under
  which \<open>connect\<close> and \<open>select_folder\<close> report a selection.
\<close>

definition select_ok :: "reply \<Rightarrow> bool" where
  "select_ok r = (case r of Resp True (Count (Some n)) \<Rightarrow> True | _ \<Rightarrow> False)"

definition connect :: "'s imap \<Rightarrow> ('s, bool) io" where
  "connect S =
     bind (call S Connect) (\<lambda>r.
       case r of
         Resp _ _ \<Rightarrow>
           bind new_handle (\<lambda>_.
           bind (call S Login) (\<lambda>r1.
             if is_ok r1
             then bind (call S (Select ''INBOX'')) (\<lambda>r2. ret (select_ok r2))
             else ret False))
       | _ \<Rightarrow> ret False)"

definition disconnect :: "'s imap \<Rightarrow> ('s, bool) io" where
  "disconnect S =
     bind has_connection (\<lambda>c.
       if \<not> c then ret True
       else bind (call S Close) (\<lambda>r.
              case r of
                RaiseOther \<Rightarrow> ret False
              | _ \<Rightarrow> bind (call S Logout) (\<lambda>r1.
                       case r1 of
                         Resp _ _ \<Rightarrow> bind (set_connection False) (\<lambda>_. ret True)
                       | _ \<Rightarrow> ret False)))"

definition ensure_connection :: "'s imap \<Rightarrow> ('s, bool) io" where
  "ensure_connection S =
     bind has_connection (\<lambda>c.
       if \<not> c then connect S
       else bind (call S Noop) (\<lambda>r.
              if is_ok r then ret True
              else bind (disconnect S) (\<lambda>_. connect S)))"

text \<open>\<open>get_connection\<close> returns the handle or \<open>None\<close>; the model returns whether it is a handle.\<close>

definition get_connection :: "'s imap \<Rightarrow> ('s, bool) io" where
  "get_connection S = bind (ensure_connection S) (\<lambda>ok. ret ok)"

definition folder_variations_table :: "(string \<times> string list) list" where
  "folder_variations_table =
     [(''[Gmail]/All Mail'', [''[Google Mail]/All Mail'', CHR 0x22 # ''[Gmail]/All Mail'' @ [CHR 0x22], ''All Mail'']),
      (''[Gmail]/Trash'', [''[Google Mail]/Bin'', ''[Gmail]/Bin'', CHR 0x22 # ''[Gmail]/Trash'' @ [CHR 0x22], ''Trash'']),
      (''[Gmail]/Spam'', [''[Google Mail]/Spam'', CHR 0x22 # ''[Gmail]/Spam'' @ [CHR 0x22], ''Spam'']),
      (''[Gmail]/Sent Mail'', [''[Google Mail]/Sent Mail'', CHR 0x22 # ''[Gmail]/Sent Mail'' @ [CHR 0x22], ''Sent'']),
      (''[Gmail]/Drafts'', [''[Google Mail]/Drafts'', CHR 0x22 # ''[Gmail]/Drafts'' @ [CHR 0x22], ''Drafts''])]"

text \<open>\<open>folder_variations.get(folder_name, [])\<close>.\<close>

definition folder_variations :: "string \<Rightarrow> string list" where
  "folder_variations folder_name =
     (case map_of folder_variations_table folder_name of None \<Rightarrow> [] | Some vs \<Rightarrow> vs)"

fun try_variations :: "'s imap \<Rightarrow> string list \<Rightarrow> ('s, bool) io" where
  "try_variations S [] = ret False"
| "try_variations S (variation # rest) =
     bind (call S (Select variation)) (\<lambda>r.
       if select_ok r then ret True else try_variations S rest)"

definition select_folder :: "'s imap \<Rightarrow> string \<Rightarrow> ('s, bool) io" where
  "select_folder S folder_name =
     bind (ensure_connection S) (\<lambda>ok.
       if \<not> ok then ret False
       else bind (call S (Select folder_name)) (\<lambda>r.
              if select_ok r then ret True
              else try_variations S (folder_variations folder_name)))"

definition sort_key_of :: "string \<Rightarrow> nat \<times> string" where
  "sort_key_of folder =
     (if folder = ''INBOX'' then (0, folder)
      else if prefix ''[Gmail]'' folder \<or> prefix ''[Google Mail]'' folder then (1, folder)
      else (2, folder))"

definition list_folders :: "'s imap \<Rightarrow> ('s, string list) io" where
  "list_folders S =
     bind (ensure_connection S) (\<lambda>ok.
       if \<not> ok then ret []
       else bind (call S ListFolders) (\<lambda>r.
              ret (case r of
                     Resp True (Folders folder_list) \<Rightarrow> sort_key sort_key_of folder_list
                   | _ \<Rightarrow> [])))"

section \<open>Email operations (\<open>email_operations.py\<close>)\<close>

subsection \<open>Library functions\<close>

text \<open>
  The standard-library functions the module calls are parameters of the model. Where
  the Python function can raise, the parameter returns an option and \<open>None\<close> is the
  exception. \<open>strptime\<close> is \<open>datetime.strptime(_, "%d-%b-%Y")\<close> and \<open>strftime\<close>
  is \<open>_.strftime("%d-%b-%Y")\<close>; \<open>parsedate_tz\<close> returns \<open>Some None\<close> where the
  Python function returns \<open>None\<close>; \<open>header raw name\<close> is
  \<open>email.message_from_bytes(raw).get(name)\<close>; \<open>decode b charset\<close> is
  \<open>b.decode(charset)\<close>.
\<close>

datatype header_part = Bytes string "string option" | Str string

record ('tt, 'dt) lib =
  strptime :: "string \<Rightarrow> 'dt option"
  strftime :: "'dt \<Rightarrow> string"
  parsedate_tz :: "string \<Rightarrow> 'tt option option"
  mktime_tz :: "'tt \<Rightarrow> int option"
  fromtimestamp :: "int \<Rightarrow> 'dt option"
  header :: "string \<Rightarrow> string \<Rightarrow> string option"
  decode_header :: "string \<Rightarrow> header_part list option"
  decode :: "string \<Rightarrow> string \<Rightarrow> string option"

datatype py_error = ZeroDivisionError

subsection \<open>Dates\<close>

text \<open>
  \<open>parse_email_date\<close> returns \<open>Inl\<close> for an exception that leaves the method and
  \<open>Inr\<close> for a returned value; the date is \<open>None\<close> where the method returns \<open>None\<close>.
\<close>

definition parse_email_date :: "('tt, 'dt) lib \<Rightarrow> string \<Rightarrow> py_error + 'dt option" where
  "parse_email_date L date_string =
     (if date_string = [] then Inr None
      else (case parsedate_tz L date_string of
              None \<Rightarrow> Inr None
            | Some None \<Rightarrow> Inr None
            | Some (Some parsed_date) \<Rightarrow>
                (case mktime_tz L parsed_date of
                   None \<Rightarrow> Inr None
                 | Some timestamp \<Rightarrow>
                     (case fromtimestamp L timestamp of
                        None \<Rightarrow> Inr None
                      | Some d \<Rightarrow> Inr (Some d)))))"

definition parse_cutoff_date :: "('tt, 'dt) lib \<Rightarrow> string \<Rightarrow> 'dt option" where
  "parse_cutoff_date L cutoff_date_str = strptime L cutoff_date_str"

definition format_date_for_imap_search :: "('tt, 'dt) lib \<Rightarrow> 'dt option \<Rightarrow> string option" where
  "format_date_for_imap_search L date_obj =
     (case date_obj of None \<Rightarrow> None | Some d \<Rightarrow> Some (strftime L d))"

subsection \<open>Metadata\<close>

record 'dt metadata =
  md_id :: string
  md_subject :: string
  md_from :: string
  md_date :: "'dt option"
  md_date_str :: string

text \<open>
  The list comprehension over \<open>decode_header(subject)\<close>: \<open>None\<close> when a
  \<open>decode\<close> raises.
\<close>

fun decode_parts :: "('tt, 'dt) lib \<Rightarrow> header_part list \<Rightarrow> string option" where
  "decode_parts L [] = Some []"
| "decode_parts L (Str t # parts) =
     (case decode_parts L parts of None \<Rightarrow> None | Some rest \<Rightarrow> Some (t @ rest))"
| "decode_parts L (Bytes b charset # parts) =
     (case decode L b (case charset of None \<Rightarrow> ''utf-8'' | Some cs \<Rightarrow> if cs = [] then ''utf-8'' else cs) of
        None \<Rightarrow> None
      | Some t \<Rightarrow> (case decode_parts L parts of None \<Rightarrow> None | Some rest \<Rightarrow> Some (t @ rest)))"

text \<open>The subject after the \<open>if subject:\<close> block; \<open>None\<close> when decoding raised.\<close>

definition decoded_subject :: "('tt, 'dt) lib \<Rightarrow> string \<Rightarrow> string option" where
  "decoded_subject L raw =
     (let subject = (case header L raw ''Subject'' of None \<Rightarrow> ''No Subject'' | Some v \<Rightarrow> v)
      in if subject \<noteq> []
         then (case decode_header L subject of
                 None \<Rightarrow> None
               | Some parts \<Rightarrow> decode_parts L parts)
         else Some subject)"

text \<open>
  The body of the \<open>try\<close> in \<open>get_email_metadata\<close> after a successful fetch, on the
  fetched header bytes; \<open>None\<close> is the value returned by the \<open>except\<close> clause.
\<close>

definition metadata_of :: "('tt, 'dt) lib \<Rightarrow> string \<Rightarrow> string \<Rightarrow> 'dt metadata option" where
  "metadata_of L email_id raw =
     (case decoded_subject L raw of
        None \<Rightarrow> None
      | Some subject \<Rightarrow>
          (let sender = (case header L raw ''From'' of None \<Rightarrow> ''Unknown Sender'' | Some v \<Rightarrow> v);
               date_str = (case header L raw ''Date'' of None \<Rightarrow> [] | Some v \<Rightarrow> v)
           in case parse_email_date L date_str of
                Inl e \<Rightarrow> None
              | Inr email_date \<Rightarrow>
                  Some \<lparr> md_id = email_id,
                         md_subject = (if length subject > 100 then take 100 subject @ ''...'' else subject),
                         md_from = sender,
                         md_date = email_date,
                         md_date_str = date_str \<rparr>))"

definition get_email_metadata ::
  "('tt, 'dt) lib \<Rightarrow> 's imap \<Rightarrow> string \<Rightarrow> ('s, 'dt metadata option) io" where
  "get_email_metadata L S email_id =
     bind (get_connection S) (\<lambda>conn.
       if \<not> conn then ret None
       else bind (call S (Fetch email_id ''(RFC822.HEADER)'')) (\<lambda>r.
              ret (case r of
                     Resp True (Message (Some raw)) \<Rightarrow> metadata_of L email_id raw
                   | _ \<Rightarrow> None)))"

subsection \<open>Search\<close>

text \<open>
  \<open>search_old_emails\<close> keeps in \<open>connection\<close> the handle it obtained before
  \<open>select_folder\<close> and sends the search on it. When \<open>select_folder\<close> had to
  reconnect, that handle is no longer the session's: the search command raises in
  \<open>imaplib\<close> without reaching the server, and the \<open>except\<close> clause returns the
  empty list.
\<close>

definition search_old_emails ::
  "('tt, 'dt) lib \<Rightarrow> 's imap \<Rightarrow> string \<Rightarrow> string \<Rightarrow> ('s, string list) io" where
  "search_old_emails L S cutoff_date_str folder_name =
     bind (get_connection S) (\<lambda>conn.
       if \<not> conn then ret []
       else bind current_handle (\<lambda>connection_handle.
            bind (if folder_name \<noteq> [] then select_folder S folder_name else ret True) (\<lambda>selected.
              if \<not> selected then ret []
              else (case format_date_for_imap_search L (parse_cutoff_date L cutoff_date_str) of
                      None \<Rightarrow> ret []
                    | Some search_date \<Rightarrow>
                        bind current_handle (\<lambda>h.
                          if h \<noteq> connection_handle then ret []
                          else bind (call S (Search (''BEFORE '' @ search_date))) (\<lambda>r.
                                 ret (case r of
                                        Resp True (Ids id_list) \<Rightarrow> id_list
                                      | _ \<Rightarrow> [])))))))"

fun search_old_emails_multiple_folders ::
  "('tt, 'dt) lib \<Rightarrow> 's imap \<Rightarrow> string \<Rightarrow> string list \<Rightarrow> ('s, (string \<times> string) list) io" where
  "search_old_emails_multiple_folders L S cutoff_date_str [] = ret []"
| "search_old_emails_multiple_folders L S cutoff_date_str (folder # folders) =
     bind (search_old_emails L S cutoff_date_str folder) (\<lambda>folder_ids.
     bind (search_old_emails_multiple_folders L S cutoff_date_str folders) (\<lambda>more.
       ret (map (\<lambda>email_id. (email_id, folder)) folder_ids @ more)))"

subsection \<open>Marking and expunging\<close>

definition deleted_flag :: string where
  "deleted_flag = CHR 0x5C # ''Deleted''"

definition expunge_deleted_emails :: "'s imap \<Rightarrow> ('s, bool) io" where
  "expunge_deleted_emails S =
     bind (get_connection S) (\<lambda>conn.
       if \<not> conn then ret False
       else bind (call S Expunge) (\<lambda>r. ret (is_ok r)))"

definition delete_emails_bulk :: "'s imap \<Rightarrow> string list \<Rightarrow> ('s, nat) io" where
  "delete_emails_bulk S email_ids =
     bind (get_connection S) (\<lambda>conn.
       if \<not> conn then ret 0
       else if email_ids = [] then ret 0
       else bind (call S (Store (join '','' email_ids) ''+FLAGS'' deleted_flag)) (\<lambda>r.
              if is_ok r then ret (length email_ids) else ret 0))"

definition is_gmail_all_mail_folder :: "string \<Rightarrow> bool" where
  "is_gmail_all_mail_folder folder_name =
     (folder_name \<in> set [''[Gmail]/All Mail'', ''[Google Mail]/All Mail'',
                         CHR 0x22 # ''[Gmail]/All Mail'' @ [CHR 0x22],
                         CHR 0x22 # ''[Google Mail]/All Mail'' @ [CHR 0x22],
                         ''All Mail''])"

definition handle_gmail_all_mail_deletion :: "'s imap \<Rightarrow> string list \<Rightarrow> ('s, nat) io" where
  "handle_gmail_all_mail_deletion S email_ids =
     bind (get_connection S) (\<lambda>conn.
       if \<not> conn then ret 0
       else if email_ids = [] then ret 0
       else bind (call S (Store (join '','' email_ids) ''+FLAGS'' deleted_flag)) (\<lambda>delete_result.
              if \<not> is_ok delete_result then ret 0
              else bind (call S (Store (join '','' email_ids) ''-X-GM-LABELS'' (CHR 0x5C # ''All''))) (\<lambda>all_result.
                     case all_result of
                       RaiseOther \<Rightarrow> ret 0
                     | _ \<Rightarrow> bind (call S Expunge) (\<lambda>expunge_result.
                              if is_ok expunge_result then ret (length email_ids) else ret 0))))"

subsection \<open>Source folders\<close>

definition gmail_source_patterns :: "string list" where
  "gmail_source_patterns =
     [''[Gmail]/Sent Mail'', ''[Google Mail]/Sent Mail'', ''[Gmail]/Drafts'',
      ''[Google Mail]/Drafts'', ''[Gmail]/Spam'', ''[Google Mail]/Spam'']"

text \<open>The three loops of \<open>get_gmail_source_folders\<close>, each appending to \<open>source_folders\<close>.\<close>

fun add_patterns :: "string list \<Rightarrow> string list \<Rightarrow> string list \<Rightarrow> string list" where
  "add_patterns all_folders source_folders [] = source_folders"
| "add_patterns all_folders source_folders (pattern # patterns) =
     add_patterns all_folders
       (if pattern \<in> set all_folders then source_folders @ [pattern] else source_folders) patterns"

fun add_custom :: "string list \<Rightarrow> string list \<Rightarrow> string list" where
  "add_custom source_folders [] = source_folders"
| "add_custom source_folders (folder # folders) =
     add_custom
       (if \<not> prefix ''[Gmail]'' folder \<and> \<not> prefix ''[Google Mail]'' folder \<and>
           folder \<noteq> ''INBOX'' \<and> folder \<notin> set source_folders
        then source_folders @ [folder] else source_folders) folders"

definition source_folders_of :: "string list \<Rightarrow> string list" where
  "source_folders_of all_folders =
     add_custom
       (add_patterns all_folders
          (if ''INBOX'' \<in> set all_folders then [''INBOX''] else []) gmail_source_patterns)
       all_folders"

text \<open>
  \<open>list_folders\<close> catches every exception itself and the rest of the \<open>try\<close> block
  only tests membership and appends, so the \<open>except\<close> clause of
  \<open>get_gmail_source_folders\<close> is never entered.
\<close>

definition get_gmail_source_folders :: "'s imap \<Rightarrow> ('s, string list) io" where
  "get_gmail_source_folders S =
     bind (list_folders S) (\<lambda>all_folders. ret (source_folders_of all_folders))"

subsection \<open>Deletion runs\<close>

text \<open>
  \<open>folder_groups\<close> is a dictionary from folder to identifier list; iteration follows
  the order in which the keys were first inserted, so it is an association list.
\<close>

fun add_to_group :: "(string \<times> string list) list \<Rightarrow> string \<Rightarrow> string \<Rightarrow> (string \<times> string list) list" where
  "add_to_group [] folder email_id = [(folder, [email_id])]"
| "add_to_group ((f, ids) # groups) folder email_id =
     (if f = folder then (f, ids @ [email_id]) # groups
      else (f, ids) # add_to_group groups folder email_id)"

definition group_by_folder :: "(string \<times> string) list \<Rightarrow> (string \<times> string list) list" where
  "group_by_folder email_folder_pairs =
     foldl (\<lambda>groups (email_id, folder). add_to_group groups folder email_id) [] email_folder_pairs"

fun true_gmail_loop :: "'s imap \<Rightarrow> (string \<times> string list) list \<Rightarrow> ('s, nat) io" where
  "true_gmail_loop S [] = ret 0"
| "true_gmail_loop S ((folder, email_ids) # groups) =
     bind (select_folder S folder) (\<lambda>selected.
       if \<not> selected then true_gmail_loop S groups
       else bind (delete_emails_bulk S email_ids) (\<lambda>deleted_count.
            bind (if deleted_count > 0
                  then bind (expunge_deleted_emails S) (\<lambda>_. ret ())
                  else ret ()) (\<lambda>_.
            bind (true_gmail_loop S groups) (\<lambda>total_deleted.
              ret (deleted_count + total_deleted)))))"

definition delete_old_emails_true_gmail ::
  "('tt, 'dt) lib \<Rightarrow> 's imap \<Rightarrow> string \<Rightarrow> ('s, nat) io" where
  "delete_old_emails_true_gmail L S cutoff_date_str =
     bind (get_gmail_source_folders S) (\<lambda>source_folders.
     bind (search_old_emails_multiple_folders L S cutoff_date_str source_folders) (\<lambda>email_folder_pairs.
       if email_folder_pairs = [] then ret 0
       else bind (true_gmail_loop S (group_by_folder email_folder_pairs)) (\<lambda>total_deleted.
            bind (set_emails_deleted total_deleted) (\<lambda>_. ret total_deleted))))"

text \<open>The search both runs start with: one folder, or the multi-folder search.\<close>

definition search_folders ::
  "('tt, 'dt) lib \<Rightarrow> 's imap \<Rightarrow> string \<Rightarrow> string list \<Rightarrow> ('s, (string \<times> string) list) io" where
  "search_folders L S cutoff_date_str folders =
     (case folders of
        [folder] \<Rightarrow>
          bind (search_old_emails L S cutoff_date_str folder) (\<lambda>old_email_ids.
            ret (map (\<lambda>email_id. (email_id, folder)) old_email_ids))
      | _ \<Rightarrow> search_old_emails_multiple_folders L S cutoff_date_str folders)"

fun fast_loop :: "'s imap \<Rightarrow> (string \<times> string list) list \<Rightarrow> ('s, nat) io" where
  "fast_loop S [] = ret 0"
| "fast_loop S ((folder, email_ids) # groups) =
     bind (select_folder S folder) (\<lambda>selected.
       if \<not> selected then fast_loop S groups
       else if is_gmail_all_mail_folder folder
       then bind (handle_gmail_all_mail_deletion S email_ids) (\<lambda>deleted_count.
            bind (fast_loop S groups) (\<lambda>total_deleted.
              ret (deleted_count + total_deleted)))
       else bind (delete_emails_bulk S email_ids) (\<lambda>deleted_count.
            bind (if deleted_count > 0
                  then bind (expunge_deleted_emails S) (\<lambda>_. ret ())
                  else ret ()) (\<lambda>_.
            bind (fast_loop S groups) (\<lambda>total_deleted.
              ret (deleted_count + total_deleted)))))"

definition delete_old_emails_fast ::
  "('tt, 'dt) lib \<Rightarrow> 's imap \<Rightarrow> string \<Rightarrow> string list \<Rightarrow> ('s, nat) io" where
  "delete_old_emails_fast L S cutoff_date_str folders =
     (if length folders = 1 \<and> is_gmail_all_mail_folder (hd folders)
      then delete_old_emails_true_gmail L S cutoff_date_str
      else bind (search_folders L S cutoff_date_str folders) (\<lambda>email_folder_pairs.
             if email_folder_pairs = [] then ret 0
             else bind (fast_loop S (group_by_folder email_folder_pairs)) (\<lambda>total_deleted.
                  bind (set_emails_deleted total_deleted) (\<lambda>_. ret total_deleted))))"

text \<open>The preview: \<open>get_email_metadata\<close> for \<open>email_ids[:3]\<close>, the result only logged.\<close>

fun preview :: "('tt, 'dt) lib \<Rightarrow> 's imap \<Rightarrow> string list \<Rightarrow> ('s, unit) io" where
  "preview L S [] = ret ()"
| "preview L S (email_id # email_ids) =
     bind (get_email_metadata L S email_id) (\<lambda>_. preview L S email_ids)"

text \<open>
  \<open>range(0, len(email_ids), batch_size)\<close> with the slices \<open>email_ids[i:i + batch_size]\<close>.
  A negative step gives an empty range; a zero step raises, which \<open>logged_loop\<close>
  handles before it asks for the batches.
\<close>

function chunks :: "nat \<Rightarrow> 'a list \<Rightarrow> 'a list list" where
  "chunks n xs = (if n = 0 \<or> xs = [] then [] else take n xs # chunks n (drop n xs))"
  by pat_completeness auto
termination
  by (relation "measure (\<lambda>(n, xs). length xs)") auto

declare chunks.simps [simp del]

definition batches :: "int \<Rightarrow> 'a list \<Rightarrow> 'a list list" where
  "batches batch_size email_ids = (if batch_size \<le> 0 then [] else chunks (nat batch_size) email_ids)"

fun delete_batches :: "'s imap \<Rightarrow> string list list \<Rightarrow> ('s, nat) io" where
  "delete_batches S [] = ret 0"
| "delete_batches S (batch # rest) =
     bind (delete_emails_bulk S batch) (\<lambda>batch_deleted.
     bind (delete_batches S rest) (\<lambda>folder_deleted.
       ret (batch_deleted + folder_deleted)))"

definition add_deleted :: "nat \<Rightarrow> py_error + nat \<Rightarrow> py_error + nat" where
  "add_deleted n r = (case r of Inl e \<Rightarrow> Inl e | Inr m \<Rightarrow> Inr (n + m))"

text \<open>
  The loop over \<open>folder_groups\<close> of the logged run. \<open>Inl\<close> is the exception that
  leaves the method: \<open>total_batches\<close> divides by \<open>batch_size\<close> outside any \<open>try\<close>.
\<close>

fun logged_loop ::
  "('tt, 'dt) lib \<Rightarrow> 's imap \<Rightarrow> string \<Rightarrow> int \<Rightarrow> (string \<times> string list) list \<Rightarrow> ('s, py_error + nat) io" where
  "logged_loop L S cutoff_date_str batch_size [] = ret (Inr 0)"
| "logged_loop L S cutoff_date_str batch_size ((folder, email_ids) # groups) =
     bind (select_folder S folder) (\<lambda>selected.
       if \<not> selected then logged_loop L S cutoff_date_str batch_size groups
       else bind (preview L S (take 3 email_ids)) (\<lambda>_.
            if is_gmail_all_mail_folder folder
            then bind (delete_old_emails_true_gmail L S cutoff_date_str) (\<lambda>folder_deleted.
                 bind (logged_loop L S cutoff_date_str batch_size groups) (\<lambda>total_deleted.
                   ret (add_deleted folder_deleted total_deleted)))
            else if batch_size = 0 then ret (Inl ZeroDivisionError)
            else bind (delete_batches S (batches batch_size email_ids)) (\<lambda>folder_deleted.
                 bind (if folder_deleted > 0
                       then bind (expunge_deleted_emails S) (\<lambda>_. ret ())
                       else ret ()) (\<lambda>_.
                 bind (logged_loop L S cutoff_date_str batch_size groups) (\<lambda>total_deleted.
                   ret (add_deleted folder_deleted total_deleted))))))"

definition delete_old_emails_with_logging ::
  "('tt, 'dt) lib \<Rightarrow> 's imap \<Rightarrow> string \<Rightarrow> string list \<Rightarrow> int \<Rightarrow> ('s, py_error + nat) io" where
  "delete_old_emails_with_logging L S cutoff_date_str folders batch_size =
     bind (search_folders L S cutoff_date_str folders) (\<lambda>email_folder_pairs.
       if email_folder_pairs = [] then ret (Inr 0)
       else bind (logged_loop L S cutoff_date_str batch_size (group_by_folder email_folder_pairs)) (\<lambda>r.
              case r of
                Inl e \<Rightarrow> ret (Inl e)
              | Inr total_deleted \<Rightarrow>
                  bind (set_emails_deleted total_deleted) (\<lambda>_. ret (Inr total_deleted))))"

section \<open>Properties of command sequences\<close>

text \<open>
  The mailbox selected on the server is a function of the commands sent so far: a
  \<open>SELECT\<close> answered \<open>OK\<close> selects its mailbox, a failed \<open>SELECT\<close> leaves none
  selected, and so do a new connection, a \<open>CLOSE\<close> and a \<open>LOGOUT\<close>.
\<close>

definition sel_after :: "string option \<Rightarrow> event \<Rightarrow> string option" where
  "sel_after sel e =
     (case fst e of
        Select f \<Rightarrow> (if is_ok (snd e) then Some f else None)
      | Connect \<Rightarrow> (case snd e of Resp _ _ \<Rightarrow> None | _ \<Rightarrow> sel)
      | Close \<Rightarrow> (if is_ok (snd e) then None else sel)
      | Logout \<Rightarrow> (if is_ok (snd e) then None else sel)
      | _ \<Rightarrow> sel)"

text \<open>The command that stores the deleted flag.\<close>

definition is_delete_cmd :: "cmd \<Rightarrow> bool" where
  "is_delete_cmd c = (case c of Store ids item v \<Rightarrow> item = ''+FLAGS'' \<and> v = deleted_flag | _ \<Rightarrow> False)"

definition all_mail_selected :: "string option \<Rightarrow> bool" where
  "all_mail_selected sel = (case sel of None \<Rightarrow> False | Some f \<Rightarrow> is_gmail_all_mail_folder f)"

text \<open>
  \<open>safe sel es\<close>: starting with \<open>sel\<close> selected, the sequence \<open>es\<close> stores no
  deleted flag while a spelling of the All Mail folder is selected.
\<close>

fun safe :: "string option \<Rightarrow> event list \<Rightarrow> bool" where
  "safe sel [] = True"
| "safe sel (e # es) =
     ((if is_delete_cmd (fst e) then \<not> all_mail_selected sel else True) \<and> safe (sel_after sel e) es)"


text \<open>The store command \<open>delete_emails_bulk\<close> sends for a list of identifiers.\<close>

definition delete_store :: "string list \<Rightarrow> cmd" where
  "delete_store email_ids = Store (join '','' email_ids) ''+FLAGS'' deleted_flag"

definition is_search_cmd :: "cmd \<Rightarrow> bool" where
  "is_search_cmd c = (case c of Search criteria \<Rightarrow> True | _ \<Rightarrow> False)"

text \<open>
  \<open>selected_at P sel es\<close>: the commands of \<open>es\<close> that satisfy \<open>P\<close>, in order, each
  with the folder selected when it was sent, starting with \<open>sel\<close> selected.
\<close>

fun selected_at :: "(cmd \<Rightarrow> bool) \<Rightarrow> string option \<Rightarrow> event list \<Rightarrow> (string option \<times> cmd) list" where
  "selected_at P sel [] = []"
| "selected_at P sel (e # es) =
     (if P (fst e) then [(sel, fst e)] else []) @ selected_at P (sel_after sel e) es"

text \<open>
  The folder \<open>select_folder\<close> ends up selecting for a name when the folders of
  \<open>existing\<close> can be selected: the name itself or the first alternate that exists.
\<close>

definition chosen :: "(string \<Rightarrow> bool) \<Rightarrow> string \<Rightarrow> string option" where
  "chosen existing folder_name = find existing (folder_name # folder_variations folder_name)"

text \<open>Servers on which a folder can be selected exactly when it is in \<open>existing\<close>.\<close>

definition selects_exactly :: "'s imap \<Rightarrow> (string \<Rightarrow> bool) \<Rightarrow> bool" where
  "selects_exactly S existing = (\<forall>sv f. select_ok (fst (S sv (Select f))) = existing f)"

text \<open>Servers that answer every store of the deleted flag with \<open>OK\<close>.\<close>

definition stores_accepted :: "'s imap \<Rightarrow> bool" where
  "stores_accepted S = (\<forall>sv email_ids. is_ok (fst (S sv (delete_store email_ids))))"

text \<open>
  Servers on which a store of the deleted flag sent in two consecutive pieces is
  answered like the same store sent whole and leaves the same server state.
\<close>

definition stores_split :: "'s imap \<Rightarrow> bool" where
  "stores_split S =
     (\<forall>sv xs ys. xs \<noteq> [] \<and> ys \<noteq> [] \<longrightarrow>
        is_ok (fst (S sv (delete_store xs))) = is_ok (fst (S sv (delete_store (xs @ ys)))) \<and>
        is_ok (fst (S (snd (S sv (delete_store xs))) (delete_store ys))) =
          is_ok (fst (S sv (delete_store (xs @ ys)))) \<and>
        snd (S (snd (S sv (delete_store xs))) (delete_store ys)) =
          snd (S sv (delete_store (xs @ ys))))"

text \<open>The commands of the connection probe and of the preview.\<close>

definition is_probe :: "event \<Rightarrow> bool" where
  "is_probe e = (case fst e of Noop \<Rightarrow> True | Fetch i p \<Rightarrow> True | _ \<Rightarrow> False)"

definition is_store :: "event \<Rightarrow> bool" where
  "is_store e = (case fst e of Store ids item v \<Rightarrow> True | _ \<Rightarrow> False)"

text \<open>
  The \<open>SELECT\<close> commands \<open>select_folder\<close> sends when the folders of \<open>existing\<close>
  can be selected: the candidates in order, up to and including the first that exists.
\<close>

fun attempts :: "(string \<Rightarrow> bool) \<Rightarrow> string list \<Rightarrow> string list" where
  "attempts existing [] = []"
| "attempts existing (c # cs) = (if existing c then [c] else c # attempts existing cs)"

section \<open>A small mail server and library for concrete runs\<close>

text \<open>
  A server with named mailboxes, each a list of message identifiers. Its state is the
  selected mailbox, the mailboxes, and the identifiers flagged as deleted in the
  selected mailbox. Every message is older than every cutoff date. \<open>STORE\<close> flags the
  identifiers that exist in the selected mailbox and reports them; \<open>EXPUNGE\<close> removes
  the flagged ones; \<open>FETCH\<close> returns the identifier itself as the header bytes.
\<close>

type_synonym mailboxes = "string option \<times> (string \<times> string list) list \<times> string list"

definition box :: "(string \<times> string list) list \<Rightarrow> string \<Rightarrow> string list" where
  "box boxes f = (case map_of boxes f of None \<Rightarrow> [] | Some ms \<Rightarrow> ms)"

definition mail_server :: "mailboxes imap" where
  "mail_server st c =
     (case st of (sel, boxes, flagged) \<Rightarrow>
       (case c of
          Connect \<Rightarrow> (Resp True NoData, (None, boxes, []))
        | Login \<Rightarrow> (Resp True NoData, st)
        | Noop \<Rightarrow> (Resp True NoData, st)
        | Close \<Rightarrow> (Resp True NoData, (None, boxes, []))
        | Logout \<Rightarrow> (Resp True NoData, (None, boxes, []))
        | Select f \<Rightarrow>
            (case map_of boxes f of
               None \<Rightarrow> (Resp False NoData, (None, boxes, []))
             | Some ms \<Rightarrow> (Resp True (Count (Some (length ms))), (Some f, boxes, [])))
        | Search criteria \<Rightarrow>
            (case sel of
               None \<Rightarrow> (Resp False NoData, st)
             | Some f \<Rightarrow> (Resp True (Ids (box boxes f)), st))
        | Fetch i part \<Rightarrow>
            (case sel of
               None \<Rightarrow> (Resp False NoData, st)
             | Some f \<Rightarrow> (Resp True (Message (if i \<in> set (box boxes f) then Some i else None)), st))
        | Store ids item v \<Rightarrow>
            (case sel of
               None \<Rightarrow> (Resp False NoData, st)
             | Some f \<Rightarrow>
                 (if item = ''+FLAGS''
                  then (let hit = filter (\<lambda>i. i \<in> set (box boxes f)) (split CHR '','' ids)
                        in (Resp True (Flagged hit), (sel, boxes, flagged @ hit)))
                  else (Resp True (Flagged []), st)))
        | Expunge \<Rightarrow>
            (case sel of
               None \<Rightarrow> (Resp False NoData, st)
             | Some f \<Rightarrow>
                 (Resp True NoData,
                  (sel, map (\<lambda>(g, ms). if g = f then (g, filter (\<lambda>i. i \<notin> set flagged) ms) else (g, ms)) boxes, [])))
        | ListFolders \<Rightarrow> (Resp True (Folders (map fst boxes)), st)))"

definition start :: "(string \<times> string list) list \<Rightarrow> mailboxes session" where
  "start boxes = \<lparr> server = (None, boxes, []), connection = False, handle = 0, emails_deleted = 0 \<rparr>"

text \<open>
  A library for concrete runs: every non-empty cutoff string is a date, the subject
  header is the fetched bytes, the date header is their first three characters, and
  every date header but \<open>bad\<close> parses.
\<close>

definition plain_lib :: "(string, string) lib" where
  "plain_lib =
     \<lparr> strptime = (\<lambda>s. if s = [] then None else Some s),
       strftime = (\<lambda>d. d),
       parsedate_tz = (\<lambda>s. if s = ''bad'' then Some None else Some (Some s)),
       mktime_tz = (\<lambda>t. Some (int (length t))),
       fromtimestamp = (\<lambda>n. Some (replicate (nat n) CHR ''d'')),
       header = (\<lambda>raw name. if name = ''Subject'' then Some raw
                             else if name = ''Date'' then Some (take 3 raw) else None),
       decode_header = (\<lambda>s. Some [Str s]),
       decode = (\<lambda>b charset. Some b) \<rparr>"

text \<open>
  A server without state: the folders of \<open>names\<close> are listed and can be selected,
  every search finds the identifiers \<open>ids\<close>, and every other command is answered
  \<open>OK\<close>.
\<close>

definition steady_server :: "string list \<Rightarrow> string list \<Rightarrow> unit imap" where
  "steady_server names ids st c =
     (case c of
        Select f \<Rightarrow>
          (if f \<in> set names then (Resp True (Count (Some (length ids))), st)
           else (Resp False NoData, st))
      | Search criteria \<Rightarrow> (Resp True (Ids ids), st)
      | ListFolders \<Rightarrow> (Resp True (Folders names), st)
      | _ \<Rightarrow> (Resp True NoData, st))"

text \<open>
  The mail server with a bound on the size of a request: a store that names more than
  \<open>n\<close> identifiers is refused.
\<close>

definition limited_server :: "nat \<Rightarrow> mailboxes imap" where
  "limited_server n st c =
     (case c of
        Store ids item v \<Rightarrow>
          (if n < length (split CHR '','' ids) then (Resp False NoData, st) else mail_server st c)
      | _ \<Rightarrow> mail_server st c)"

text \<open>A server on which a fixed list of folders can be selected and nothing changes.\<close>

definition static_server :: "string list \<Rightarrow> unit imap" where
  "static_server folders st c =
     (case c of
        Select f \<Rightarrow> (if f \<in> set folders then (Resp True (Count (Some 0)), st) else (Resp False NoData, st))
      | _ \<Rightarrow> (Resp True NoData, st))"


text \<open>
  A server on which the connection probe always succeeds and neither the probe nor a
  fetch changes the server state.
\<close>

definition quiet :: "'s imap \<Rightarrow> bool" where
  "quiet S =
     ((\<forall>sv. is_ok (fst (S sv Noop)) \<and> snd (S sv Noop) = sv) \<and>
      (\<forall>sv i part. snd (S sv (Fetch i part)) = sv))"

text \<open>The commands \<open>connect\<close>, \<open>disconnect\<close> and \<open>ensure_connection\<close> send.\<close>

definition conn_ev :: "event \<Rightarrow> bool" where
  "conn_ev e = (fst e \<in> {Connect, Login, Noop, Close, Logout, Select ''INBOX''})"

text \<open>A \<open>SELECT\<close> of a folder that is no spelling of All Mail, or any other command.\<close>

definition sel_clean :: "event \<Rightarrow> bool" where
  "sel_clean e = (case fst e of Select f \<Rightarrow> \<not> is_gmail_all_mail_folder f | _ \<Rightarrow> True)"

text \<open>Neither the folder nor any alternate \<open>select_folder\<close> tries for it is a spelling of All Mail.\<close>

definition clean_folder :: "string \<Rightarrow> bool" where
  "clean_folder f =
     (\<not> is_gmail_all_mail_folder f \<and>
      list_all (\<lambda>c. \<not> is_gmail_all_mail_folder c) (folder_variations f))"


section \<open>Link validation and cleaning: proofs\<close>

text \<open>
  Claim C10. \<open>is_valid_unsubscribe_url\<close> accepts a URL exactly when it has at least 10
  characters, begins with \<open>http://\<close> or \<open>https://\<close> ignoring case, contains
  \<open>unsubscribe\<close> ignoring case, and contains none of \<open>javascript:\<close>, \<open>data:\<close>,
  \<open>file:\<close>, \<open>ftp:\<close> anywhere, ignoring case.
\<close>

theorem is_valid_unsubscribe_url_iff:
  "is_valid_unsubscribe_url url \<longleftrightarrow>
     10 \<le> length url \<and>
     (prefix ''http://'' (lower url) \<or> prefix ''https://'' (lower url)) \<and>
     sublist ''unsubscribe'' (lower url) \<and>
     \<not> sublist ''javascript:'' (lower url) \<and>
     \<not> sublist ''data:'' (lower url) \<and>
     \<not> sublist ''file:'' (lower url) \<and>
     \<not> sublist ''ftp:'' (lower url)"
  unfolding is_valid_unsubscribe_url_def suspicious_patterns_def
  by (cases url) auto

theorem is_valid_unsubscribe_url_iff_witness:
  "is_valid_unsubscribe_url ''https://a.com/unsubscribe'' \<and>
   \<not> is_valid_unsubscribe_url ''https://a.com/unsubscribe?next=ftp://b.org'' \<and>
   \<not> is_valid_unsubscribe_url ''javascript:unsubscribe()''"
proof -
  have a: "sublist ''ftp:'' (lower ''https://a.com/unsubscribe?next=ftp://b.org'')" by code_simp
  have b: "\<not> (prefix ''http://'' (lower ''javascript:unsubscribe()'') \<or>
              prefix ''https://'' (lower ''javascript:unsubscribe()''))" by code_simp
  have c: "10 \<le> length ''https://a.com/unsubscribe'' \<and>
     (prefix ''http://'' (lower ''https://a.com/unsubscribe'') \<or>
      prefix ''https://'' (lower ''https://a.com/unsubscribe'')) \<and>
     sublist ''unsubscribe'' (lower ''https://a.com/unsubscribe'') \<and>
     \<not> sublist ''javascript:'' (lower ''https://a.com/unsubscribe'') \<and>
     \<not> sublist ''data:'' (lower ''https://a.com/unsubscribe'') \<and>
     \<not> sublist ''file:'' (lower ''https://a.com/unsubscribe'') \<and>
     \<not> sublist ''ftp:'' (lower ''https://a.com/unsubscribe'')" by code_simp
  show ?thesis
    using a b c
      is_valid_unsubscribe_url_iff [of "''https://a.com/unsubscribe''"]
      is_valid_unsubscribe_url_iff [of "''https://a.com/unsubscribe?next=ftp://b.org''"]
      is_valid_unsubscribe_url_iff [of "''javascript:unsubscribe()''"]
    by blast
qed

lemma filter_params_eq:
  "filter_params ps = filter (\<lambda>p. CHR ''='' \<in> set p \<and> param_name p \<notin> set tracking_params) ps"
  by (induction ps) auto

lemma split_once_append:
  "sep \<notin> set base \<Longrightarrow> split_once sep (base @ sep # rest) = (base, rest)"
  unfolding split_once_def
  by (induction base) auto

lemma split_nonempty: "split sep s \<noteq> []"
  by (induction s) (auto split: list.splits)

lemma split_no_sep: "sep \<notin> set w \<Longrightarrow> split sep (w @ sep # s) = w # split sep s"
  by (induction w) (auto split: list.splits simp: split_nonempty)

lemma split_no_sep_end: "sep \<notin> set w \<Longrightarrow> split sep w = [w]"
  by (induction w) (auto split: list.splits)

lemma split_join:
  "ps \<noteq> [] \<Longrightarrow> \<forall>p\<in>set ps. sep \<notin> set p \<Longrightarrow> split sep (join [sep] ps) = ps"
proof (induction ps)
  case Nil then show ?case by simp
next
  case (Cons w ws)
  show ?case
  proof (cases ws)
    case Nil
    with Cons.prems show ?thesis by (simp add: split_no_sep_end)
  next
    case (Cons v vs)
    with Cons.IH Cons.prems show ?thesis by (simp add: split_no_sep)
  qed
qed

text \<open>
  Claim C4, as stated, fails: a query parameter without \<open>=\<close> is removed although its
  name is not a tracking key.
\<close>

theorem clean_link_drops_bare_parameter:
  "is_valid_unsubscribe_url ''https://x.com/unsubscribe?token&id=5'' \<and>
   param_name ''token'' \<notin> set tracking_params \<and>
   validate_and_clean_links [''https://x.com/unsubscribe?token&id=5''] = [''https://x.com/unsubscribe?id=5'']"
  by code_simp

text \<open>
  Claim C4, amended. For a valid link, cleaning works on the link with surrounding
  whitespace stripped. Without a \<open>?\<close> the stripped link is returned. Otherwise, with
  the stripped link read as a base, a \<open>?\<close> and parameters joined by \<open>&\<close>, the
  parameters kept are exactly those that contain \<open>=\<close> and whose name is not one of
  the five tracking keys, in their original order; the result is the base, followed by
  \<open>?\<close> and the kept parameters joined by \<open>&\<close> when any is kept, and the base alone
  (no \<open>?\<close>) when none is.
\<close>

theorem clean_link_strips_tracking:
  assumes "is_valid_unsubscribe_url link"
  shows "(CHR ''?'' \<notin> set (strip link) \<longrightarrow> validate_and_clean_links [link] = [strip link]) \<and>
         (\<forall>base ps. strip link = base @ ''?'' @ join ''&'' ps \<and> CHR ''?'' \<notin> set base \<and>
                     ps \<noteq> [] \<and> (\<forall>p\<in>set ps. CHR ''&'' \<notin> set p) \<longrightarrow>
            validate_and_clean_links [link] =
              [let kept = filter (\<lambda>p. CHR ''='' \<in> set p \<and> param_name p \<notin> set tracking_params) ps
               in if kept = [] then base else base @ ''?'' @ join ''&'' kept])"
proof (intro conjI impI allI)
  assume "CHR ''?'' \<notin> set (strip link)"
  with assms show "validate_and_clean_links [link] = [strip link]"
    by (simp add: clean_link_def)
next
  fix base ps
  assume h: "strip link = base @ ''?'' @ join ''&'' ps \<and> CHR ''?'' \<notin> set base \<and>
             ps \<noteq> [] \<and> (\<forall>p\<in>set ps. CHR ''&'' \<notin> set p)"
  then have so: "split_once CHR ''?'' (strip link) = (base, join ''&'' ps)"
    using split_once_append [of "CHR ''?''" base "join ''&'' ps"] by simp
  from h have sj: "split CHR ''&'' (join ''&'' ps) = ps"
    using split_join [of ps "CHR ''&''"] by simp
  from h have q: "CHR ''?'' \<in> set (strip link)" by simp
  show "validate_and_clean_links [link] =
              [let kept = filter (\<lambda>p. CHR ''='' \<in> set p \<and> param_name p \<notin> set tracking_params) ps
               in if kept = [] then base else base @ ''?'' @ join ''&'' kept]"
    using assms q so sj by (simp add: clean_link_def filter_params_eq Let_def)
qed

theorem clean_link_strips_tracking_witness:
  "validate_and_clean_links [''https://x.com/unsubscribe?utm_source=a&id=5&utm_term=b&k=v ''] =
     [''https://x.com/unsubscribe?id=5&k=v'']"
proof -
  let ?l = "''https://x.com/unsubscribe?utm_source=a&id=5&utm_term=b&k=v ''"
  have v: "is_valid_unsubscribe_url ?l" by code_simp
  have s: "strip ?l = ''https://x.com/unsubscribe'' @ ''?'' @ join ''&'' [''utm_source=a'', ''id=5'', ''utm_term=b'', ''k=v'']"
    by code_simp
  have b: "CHR ''?'' \<notin> set ''https://x.com/unsubscribe''" by simp
  have n: "\<forall>p\<in>set [''utm_source=a'', ''id=5'', ''utm_term=b'', ''k=v'']. CHR ''&'' \<notin> set p" by simp
  from clean_link_strips_tracking [OF v] s b n
  have "validate_and_clean_links [?l] =
      [let kept = filter (\<lambda>p. CHR ''='' \<in> set p \<and> param_name p \<notin> set tracking_params) [''utm_source=a'', ''id=5'', ''utm_term=b'', ''k=v'']
               in if kept = [] then ''https://x.com/unsubscribe'' else ''https://x.com/unsubscribe'' @ ''?'' @ join ''&'' kept]"
    by blast
  also have "\<dots> = [''https://x.com/unsubscribe?id=5&k=v'']" by code_simp
  finally show ?thesis .
qed

section \<open>Link extraction: proofs\<close>

lemma not_url_char_lower: "\<not> url_char c \<Longrightarrow> py_lower_char c = c"
  unfolding url_char_def py_isspace_def by (auto simp: py_lower_char_def)

lemma url_char_lower: "url_char (py_lower_char c) \<Longrightarrow> url_char c"
  using not_url_char_lower [of c] by (cases "url_char c") simp_all

lemma prefix_lower_url_chars:
  assumes "prefix p (lower s)" "list_all url_char p" "length p = k"
  shows "list_all url_char (take k s)"
proof -
  note assms(3) [symmetric, simp]
  from assms(1) have "p = take (length p) (lower s)"
    by (metis append_eq_conv_conj prefix_def)
  then have "p = lower (take (length p) s)" by (simp add: lower_def take_map)
  with assms(2) have "list_all url_char (map py_lower_char (take (length p) s))"
    by (simp add: lower_def)
  then show ?thesis by (auto simp: list_all_iff intro: url_char_lower)
qed

lemma match_at_prefix:
  assumes "match_at t = Some m"
  shows "prefix m t \<and> list_all url_char m"
proof -
  have a: "prefix (take k t @ takeWhile url_char (drop k t)) t" for k
    by (metis append_take_drop_id prefix_def takeWhile_dropWhile_id append.assoc)
  have b: "list_all url_char (takeWhile url_char xs)" for xs
    by (induction xs) auto
  have c8: "list_all url_char ''https://''" by (simp add: url_char_def py_isspace_def)
  have c7: "list_all url_char ''http://''" by (simp add: url_char_def py_isspace_def)
  from assms show ?thesis
    using a b prefix_lower_url_chars [OF _ c8, of t 8] prefix_lower_url_chars [OF _ c7, of t 7]
    by (auto simp: match_at_def Let_def split: if_splits)
qed

lemma findall_from_match:
  "m \<in> set (findall_from k s) \<Longrightarrow> \<exists>t. suffix t s \<and> match_at t = Some m"
proof (induction k s rule: findall_from.induct)
  case (1 k) then show ?case by simp
next
  case (2 k c cs)
  then show ?case by (auto intro: suffix_ConsI)
next
  case (3 c cs)
  show ?case
  proof (cases "match_at (c # cs)")
    case None
    with 3 show ?thesis by (auto intro: suffix_ConsI)
  next
    case (Some m')
    with 3 show ?thesis by (auto intro: suffix_ConsI)
  qed
qed

lemma unique_valid_elem:
  "x \<in> set (unique_valid seen ms) \<Longrightarrow>
   \<exists>m\<in>set ms. x = rstrip ''.,;!?)'' m \<and> is_valid_unsubscribe_url x"
  by (induction seen ms rule: unique_valid.induct) (auto simp: Let_def split: if_splits)

lemma rstrip_prefix: "prefix (rstrip chars m) m"
  unfolding rstrip_def
  by (metis suffix_dropWhile suffix_to_prefix rev_rev_ident)

lemma list_all_prefix: "prefix xs ys \<Longrightarrow> list_all P ys \<Longrightarrow> list_all P xs"
  by (auto simp: prefix_def)

lemma extracted_link_is_url:
  assumes "x \<in> set (extract_unsubscribe_links content)"
  shows "sublist x content \<and> list_all url_char x \<and> is_valid_unsubscribe_url x"
proof -
  from assms have "x \<in> set (unique_valid [] (findall content))"
    by (auto simp: extract_unsubscribe_links_def split: if_splits)
  then obtain m where m: "m \<in> set (findall content)" "x = rstrip ''.,;!?)'' m"
    and v: "is_valid_unsubscribe_url x"
    using unique_valid_elem by blast
  from m(1) obtain t where t: "suffix t content" "match_at t = Some m"
    using findall_from_match unfolding findall_def by blast
  from t(2) have pm: "prefix m t" "list_all url_char m" using match_at_prefix by auto
  from m(2) have px: "prefix x m" using rstrip_prefix by simp
  have "sublist x t" using px pm(1) by (meson prefix_order.order_trans prefix_imp_sublist)
  moreover have "sublist t content" using t(1) by auto
  ultimately have "sublist x content" by (meson sublist_order.order_trans)
  moreover have "list_all url_char x" using px pm(2) list_all_prefix by blast
  ultimately show ?thesis using v by simp
qed

lemma sublist_lower_mono: "sublist u s \<Longrightarrow> sublist p (lower u) \<Longrightarrow> sublist p (lower s)"
  unfolding lower_def by (meson sublist_order.order_trans map_mono_sublist)

text \<open>
  Claim C5. Extraction followed by cleaning on the content of the example yields
  exactly \<open>https://x.com/unsubscribe?id=5\<close>. And when no URL in the content, that is
  no stretch of the content that begins with \<open>http://\<close> or \<open>https://\<close> (ignoring
  case) and is free of whitespace, \<open><\<close>, \<open>>\<close> and the double quote, contains
  \<open>unsubscribe\<close> (ignoring case, as the pattern matches), extraction returns the
  empty list.
\<close>

theorem extract_example_and_empty:
  "validate_and_clean_links
     (extract_unsubscribe_links ''Click here: https://x.com/unsubscribe?utm_source=a&id=5 to opt out.'')
     = [''https://x.com/unsubscribe?id=5''] \<and>
   (\<forall>content.
      (\<forall>u. sublist u content \<and> list_all url_char u \<and>
           (prefix ''http://'' (lower u) \<or> prefix ''https://'' (lower u))
           \<longrightarrow> \<not> sublist ''unsubscribe'' (lower u))
      \<longrightarrow> extract_unsubscribe_links content = [])"
proof (intro conjI allI impI)
  show "validate_and_clean_links
     (extract_unsubscribe_links ''Click here: https://x.com/unsubscribe?utm_source=a&id=5 to opt out.'')
     = [''https://x.com/unsubscribe?id=5'']"
    by code_simp
next
  fix content
  assume h: "\<forall>u. sublist u content \<and> list_all url_char u \<and>
           (prefix ''http://'' (lower u) \<or> prefix ''https://'' (lower u))
           \<longrightarrow> \<not> sublist ''unsubscribe'' (lower u)"
  show "extract_unsubscribe_links content = []"
  proof (rule ccontr)
    assume "extract_unsubscribe_links content \<noteq> []"
    then obtain x where "x \<in> set (extract_unsubscribe_links content)"
      by (meson last_in_set)
    then have "sublist x content \<and> list_all url_char x \<and> is_valid_unsubscribe_url x"
      by (rule extracted_link_is_url)
    with h show False by (auto simp: is_valid_unsubscribe_url_def split: if_splits)
  qed
qed

theorem extract_example_and_empty_witness:
  "extract_unsubscribe_links ''Questions? Visit https://x.com/help now.'' = []"
proof -
  let ?c = "''Questions? Visit https://x.com/help now.''"
  have h: "\<forall>u. sublist u ?c \<and> list_all url_char u \<and>
        (prefix ''http://'' (lower u) \<or> prefix ''https://'' (lower u))
        \<longrightarrow> \<not> sublist ''unsubscribe'' (lower u)"
  proof (intro allI impI notI)
    fix u
    assume a: "sublist u ?c \<and> list_all url_char u \<and>
        (prefix ''http://'' (lower u) \<or> prefix ''https://'' (lower u))"
      and b: "sublist ''unsubscribe'' (lower u)"
    from a b have "sublist ''unsubscribe'' (lower ?c)"
      using sublist_lower_mono by blast
    moreover have "\<not> sublist ''unsubscribe'' (lower ?c)" by code_simp
    ultimately show False by simp
  qed
  with extract_example_and_empty show ?thesis by blast
qed

section \<open>Sessions: basic facts\<close>

lemma res_ret [simp]: "res (ret x) s = x"
  and evs_ret [simp]: "evs (ret x) s = []"
  and post_ret [simp]: "post (ret x) s = s"
  by (simp_all add: res_def evs_def post_def ret_def)

lemma res_bind [simp]: "res (bind m f) s = res (f (res m s)) (post m s)"
  and evs_bind [simp]: "evs (bind m f) s = evs m s @ evs (f (res m s)) (post m s)"
  and post_bind [simp]: "post (bind m f) s = post (f (res m s)) (post m s)"
  by (simp_all add: res_def evs_def post_def bind_def split: prod.splits)

lemma res_call [simp]: "res (call S c) s = fst (S (server s) c)"
  and evs_call [simp]: "evs (call S c) s = [(c, fst (S (server s) c))]"
  and post_call [simp]: "post (call S c) s = s\<lparr>server := snd (S (server s) c)\<rparr>"
  by (simp_all add: res_def evs_def post_def call_def split: prod.splits)

lemma res_has_connection [simp]: "res has_connection s = connection s"
  and evs_has_connection [simp]: "evs has_connection s = []"
  and post_has_connection [simp]: "post has_connection s = s"
  by (simp_all add: res_def evs_def post_def has_connection_def)

lemma evs_new_handle [simp]: "evs new_handle s = []"
  and post_new_handle [simp]: "post new_handle s = s\<lparr>connection := True, handle := Suc (handle s)\<rparr>"
  by (simp_all add: res_def evs_def post_def new_handle_def)

lemma res_current_handle [simp]: "res current_handle s = handle s"
  and evs_current_handle [simp]: "evs current_handle s = []"
  and post_current_handle [simp]: "post current_handle s = s"
  by (simp_all add: res_def evs_def post_def current_handle_def)

lemma evs_set_connection [simp]: "evs (set_connection b) s = []"
  and post_set_connection [simp]: "post (set_connection b) s = s\<lparr>connection := b\<rparr>"
  by (simp_all add: res_def evs_def post_def set_connection_def)

lemma evs_set_emails_deleted [simp]: "evs (set_emails_deleted n) s = []"
  and post_set_emails_deleted [simp]: "post (set_emails_deleted n) s = s\<lparr>emails_deleted := n\<rparr>"
  by (simp_all add: res_def evs_def post_def set_emails_deleted_def)

lemma io_eqI:
  "res m s = res m' s' \<Longrightarrow> evs m s = evs m' s' \<Longrightarrow> post m s = post m' s' \<Longrightarrow> m s = m' s'"
  by (simp add: res_def evs_def post_def prod_eq_iff)

lemma get_connection_eq: "get_connection S = ensure_connection S"
  by (rule ext, rule io_eqI) (simp_all add: get_connection_def)

lemma list_all_weaken: "list_all P xs \<Longrightarrow> (\<And>x. P x \<Longrightarrow> Q x) \<Longrightarrow> list_all Q xs"
  by (auto simp: list_all_iff)

lemma evs_connect: "list_all conn_ev (evs (connect S) s)"
  by (simp add: connect_def conn_ev_def split: reply.splits)

lemma evs_disconnect: "list_all conn_ev (evs (disconnect S) s)"
  by (simp add: disconnect_def conn_ev_def split: reply.splits)

lemma evs_ensure_connection: "list_all conn_ev (evs (ensure_connection S) s)"
  by (simp add: ensure_connection_def evs_connect evs_disconnect) (simp add: conn_ev_def)

section \<open>Bulk marking: proofs\<close>

lemma res_delete_emails_bulk:
  "res (delete_emails_bulk S ids) s =
     (if res (get_connection S) s \<and> ids \<noteq> [] \<and>
         is_ok (fst (S (server (post (get_connection S) s)) (Store (join '','' ids) ''+FLAGS'' deleted_flag)))
      then length ids else 0)"
  by (simp add: delete_emails_bulk_def)

lemma evs_delete_emails_bulk:
  "evs (delete_emails_bulk S ids) s =
     evs (get_connection S) s @
     (if res (get_connection S) s \<and> ids \<noteq> []
      then [(Store (join '','' ids) ''+FLAGS'' deleted_flag,
             fst (S (server (post (get_connection S) s)) (Store (join '','' ids) ''+FLAGS'' deleted_flag)))]
      else [])"
  by (simp add: delete_emails_bulk_def)

text \<open>
  Claim C9. \<open>delete_emails_bulk\<close> returns the length of the list or 0, never a count
  in between: 0 for an empty list, without a connection, and when the one store command
  is not answered \<open>OK\<close> (another status or an exception); the length of the list when
  there is a connection and the store command is answered \<open>OK\<close>.
\<close>

theorem delete_emails_bulk_all_or_nothing:
  "(res (delete_emails_bulk S ids) s = length ids \<or> res (delete_emails_bulk S ids) s = 0) \<and>
   (ids = [] \<longrightarrow> res (delete_emails_bulk S ids) s = 0) \<and>
   (\<not> res (get_connection S) s \<longrightarrow> res (delete_emails_bulk S ids) s = 0) \<and>
   (\<not> is_ok (fst (S (server (post (get_connection S) s)) (Store (join '','' ids) ''+FLAGS'' deleted_flag)))
      \<longrightarrow> res (delete_emails_bulk S ids) s = 0) \<and>
   (res (get_connection S) s \<and>
    is_ok (fst (S (server (post (get_connection S) s)) (Store (join '','' ids) ''+FLAGS'' deleted_flag)))
      \<longrightarrow> res (delete_emails_bulk S ids) s = length ids)"
  by (simp add: res_delete_emails_bulk)

theorem delete_emails_bulk_all_or_nothing_witness:
  "res (delete_emails_bulk mail_server [''1'', ''2'', ''3'']) (start [(''INBOX'', [''1'', ''2'', ''3''])]) = 3 \<and>
   res (delete_emails_bulk mail_server []) (start [(''INBOX'', [''1'', ''2'', ''3''])]) = 0"
proof -
  let ?s = "start [(''INBOX'', [''1'', ''2'', ''3''])]"
  have a: "res (get_connection mail_server) ?s" by code_simp
  have b: "is_ok (fst (mail_server (server (post (get_connection mail_server) ?s))
                 (Store (join '','' [''1'', ''2'', ''3'']) ''+FLAGS'' deleted_flag)))" by code_simp
  show ?thesis
    using a b delete_emails_bulk_all_or_nothing [of mail_server "[''1'', ''2'', ''3'']" ?s]
      delete_emails_bulk_all_or_nothing [of mail_server "[]" ?s]
    by simp
qed

text \<open>
  Claim C6, as stated, fails: the server flags one of the two identifiers and reports
  it, and \<open>delete_emails_bulk\<close> returns 2.
\<close>

theorem delete_emails_bulk_reports_requested_count:
  "evs (delete_emails_bulk mail_server [''1'', ''2''])
       (post (select_folder mail_server ''INBOX'') (start [(''INBOX'', [''1''])])) =
     [(Noop, Resp True NoData),
      (Store ''1,2'' ''+FLAGS'' deleted_flag, Resp True (Flagged [''1'']))] \<and>
   res (delete_emails_bulk mail_server [''1'', ''2''])
       (post (select_folder mail_server ''INBOX'') (start [(''INBOX'', [''1''])])) = 2"
  by code_simp

text \<open>
  Claim C6, amended. For a non-empty list \<open>delete_emails_bulk\<close> first checks the
  connection, which sends no store command. With a connection it then sends exactly one
  store command, which names every identifier of the list and sets the deleted flag,
  and nothing after it; the value returned is the number of identifiers requested when
  that command is answered \<open>OK\<close> and 0 otherwise, whatever the server reports as
  flagged. Without a connection it sends nothing more and returns 0.
\<close>

theorem delete_emails_bulk_single_store:
  assumes "ids \<noteq> []"
  shows "list_all (\<lambda>e. \<not> is_store e) (evs (get_connection S) s) \<and>
         (if res (get_connection S) s
          then evs (delete_emails_bulk S ids) s =
                 evs (get_connection S) s @
                 [(Store (join '','' ids) ''+FLAGS'' deleted_flag,
                   fst (S (server (post (get_connection S) s)) (Store (join '','' ids) ''+FLAGS'' deleted_flag)))] \<and>
               res (delete_emails_bulk S ids) s =
                 (if is_ok (fst (S (server (post (get_connection S) s))
                                   (Store (join '','' ids) ''+FLAGS'' deleted_flag)))
                  then length ids else 0)
          else evs (delete_emails_bulk S ids) s = evs (get_connection S) s \<and>
               res (delete_emails_bulk S ids) s = 0)"
proof -
  have "list_all (\<lambda>e. \<not> is_store e) (evs (get_connection S) s)"
    using evs_ensure_connection [of S s]
    by (auto simp: get_connection_eq list_all_iff conn_ev_def is_store_def)
  then show ?thesis
    using assms by (simp add: res_delete_emails_bulk evs_delete_emails_bulk)
qed

theorem delete_emails_bulk_single_store_witness:
  "filter is_store (evs (delete_emails_bulk mail_server [''1'', ''3''])
                        (start [(''INBOX'', [''1'', ''2'', ''3''])])) =
     [(Store ''1,3'' ''+FLAGS'' deleted_flag, Resp True (Flagged [''1'', ''3'']))] \<and>
   res (delete_emails_bulk mail_server [''1'', ''3'']) (start [(''INBOX'', [''1'', ''2'', ''3''])]) = 2"
proof -
  let ?s = "start [(''INBOX'', [''1'', ''2'', ''3''])]"
  let ?c = "Store (join '','' [''1'', ''3'']) ''+FLAGS'' deleted_flag"
  have n: "[''1'', ''3''] \<noteq> ([] :: string list)" by simp
  have g: "res (get_connection mail_server) ?s" by code_simp
  have r: "fst (mail_server (server (post (get_connection mail_server) ?s)) ?c) =
             Resp True (Flagged [''1'', ''3''])" by code_simp
  have c: "?c = Store ''1,3'' ''+FLAGS'' deleted_flag" by simp
  from delete_emails_bulk_single_store [OF n, of mail_server ?s] g
  have p: "list_all (\<lambda>e. \<not> is_store e) (evs (get_connection mail_server) ?s)"
    and e: "evs (delete_emails_bulk mail_server [''1'', ''3'']) ?s =
              evs (get_connection mail_server) ?s @
              [(?c, fst (mail_server (server (post (get_connection mail_server) ?s)) ?c))]"
    and v: "res (delete_emails_bulk mail_server [''1'', ''3'']) ?s =
              (if is_ok (fst (mail_server (server (post (get_connection mail_server) ?s)) ?c))
               then length [''1'', ''3''] else 0)"
    by simp_all
  from p have f: "filter is_store (evs (get_connection mail_server) ?s) = []"
    by (simp add: list_all_iff filter_empty_conv)
  show ?thesis
    unfolding e v r c [symmetric] using f by (simp add: is_store_def is_ok_def)
qed

section \<open>Folder selection: proofs\<close>

lemma res_try_variations:
  assumes "\<forall>sv f. select_ok (fst (S sv (Select f))) = existing f"
  shows "res (try_variations S vs) s = (\<exists>v\<in>set vs. existing v)"
  using assms by (induction vs arbitrary: s) auto

lemma cmds_try_variations:
  assumes "\<forall>sv f. select_ok (fst (S sv (Select f))) = existing f"
  shows "map fst (evs (try_variations S vs) s) = map Select (attempts existing vs)"
  using assms by (induction vs arbitrary: s) auto

text \<open>
  Claim C7. Let the folders that exist on the server be those whose \<open>SELECT\<close> the
  server answers \<open>OK\<close> with a message count, whatever its state, and let the session
  have a connection (\<open>ensure_connection\<close> succeeds). For a folder name that is a key of
  the table of alternates, \<open>select_folder\<close> returns true exactly when the name or one
  of its alternates exists, so it succeeds on an alternate when the canonical name does
  not exist; after the connection check it sends \<open>SELECT\<close> for the exact name first and
  then for the alternates in the order of the table, stopping at the first that exists.
  The value returned is a truth value.
\<close>

theorem select_folder_fallback:
  assumes "\<forall>sv f. select_ok (fst (S sv (Select f))) = existing f"
      and "res (ensure_connection S) s"
      and "map_of folder_variations_table folder_name = Some alternates"
  shows "res (select_folder S folder_name) s = (existing folder_name \<or> (\<exists>v\<in>set alternates. existing v)) \<and>
         map fst (evs (select_folder S folder_name) s) =
           map fst (evs (ensure_connection S) s) @ map Select (attempts existing (folder_name # alternates))"
  using assms
  by (simp add: select_folder_def folder_variations_def res_try_variations [OF assms(1)]
      cmds_try_variations [OF assms(1)])

theorem select_folder_fallback_witness:
  "res (select_folder (static_server [''INBOX'', ''[Gmail]/Bin'']) ''[Gmail]/Trash'')
       \<lparr> server = (), connection = True, handle = 1, emails_deleted = 0 \<rparr> \<and>
   map fst (evs (select_folder (static_server [''INBOX'', ''[Gmail]/Bin'']) ''[Gmail]/Trash'')
       \<lparr> server = (), connection = True, handle = 1, emails_deleted = 0 \<rparr>) =
     [Noop, Select ''[Gmail]/Trash'', Select ''[Google Mail]/Bin'', Select ''[Gmail]/Bin'']"
proof -
  let ?S = "static_server [''INBOX'', ''[Gmail]/Bin'']"
  let ?s = "\<lparr> server = (), connection = True, handle = 1, emails_deleted = 0 \<rparr>"
  let ?ex = "\<lambda>f. f \<in> set [''INBOX'', ''[Gmail]/Bin'']"
  let ?alts = "[''[Google Mail]/Bin'', ''[Gmail]/Bin'', CHR 0x22 # ''[Gmail]/Trash'' @ [CHR 0x22], ''Trash'']"
  have a: "\<forall>sv f. select_ok (fst (?S sv (Select f))) = ?ex f"
    by (simp add: static_server_def select_ok_def)
  have b: "res (ensure_connection ?S) ?s" by code_simp
  have c: "map_of folder_variations_table ''[Gmail]/Trash'' = Some ?alts" by code_simp
  have d: "map fst (evs (ensure_connection ?S) ?s) = [Noop]" by code_simp
  have e: "attempts ?ex (''[Gmail]/Trash'' # ?alts) = [''[Gmail]/Trash'', ''[Google Mail]/Bin'', ''[Gmail]/Bin'']"
    by simp
  from select_folder_fallback [of ?S ?ex ?s "''[Gmail]/Trash''" ?alts, OF a b c]
  show ?thesis unfolding d e by simp
qed


section \<open>Metadata: proofs\<close>





section \<open>Source folders: proofs\<close>

lemma set_add_patterns:
  "set (add_patterns fs acc ps) = set acc \<union> (set ps \<inter> set fs)"
  by (induction fs acc ps rule: add_patterns.induct) auto

lemma set_add_custom:
  "set (add_custom acc fs) =
     set acc \<union> {f \<in> set fs. \<not> prefix ''[Gmail]'' f \<and> \<not> prefix ''[Google Mail]'' f \<and> f \<noteq> ''INBOX''}"
  by (induction acc fs rule: add_custom.induct) auto

lemma set_source_folders_of:
  "set (source_folders_of fs) =
     {f \<in> set fs. f = ''INBOX'' \<or> f \<in> set gmail_source_patterns \<or>
                  (\<not> prefix ''[Gmail]'' f \<and> \<not> prefix ''[Google Mail]'' f)}"
  by (auto simp: source_folders_of_def set_add_custom set_add_patterns)

lemma patterns_not_all_mail: "f \<in> set gmail_source_patterns \<Longrightarrow> \<not> is_gmail_all_mail_folder f"
  by (auto simp: gmail_source_patterns_def is_gmail_all_mail_folder_def)

lemma inbox_not_all_mail: "\<not> is_gmail_all_mail_folder ''INBOX''"
  by (simp add: is_gmail_all_mail_folder_def)

lemma res_get_gmail_source_folders:
  "res (get_gmail_source_folders S) s = source_folders_of (res (list_folders S) s)"
  by (simp add: get_gmail_source_folders_def)

text \<open>
  Claim C3, as stated, fails: on the folder list of the repository's own test the
  source folders contain \<open>[Gmail]/Sent Mail\<close>, a system folder by the test the
  method itself applies to custom labels.
\<close>

theorem source_folders_include_sent_mail:
  "res (get_gmail_source_folders mail_server)
     (start [(''INBOX'', []), (''[Gmail]/All Mail'', []), (''[Gmail]/Sent Mail'', []), (''[Gmail]/Trash'', [])])
     = [''INBOX'', ''[Gmail]/Sent Mail''] \<and>
   prefix ''[Gmail]'' ''[Gmail]/Sent Mail''"
  by code_simp

text \<open>
  Claim C3, amended. \<open>get_gmail_source_folders\<close> computes its list from the result
  of \<open>list_folders\<close>. When no listed folder is a spelling of All Mail outside the
  \<open>[Gmail]\<close> and \<open>[Google Mail]\<close> hierarchies, the list consists of exactly the
  listed folders that are \<open>INBOX\<close>, one of the six Sent Mail, Drafts and Spam
  folders, or a folder whose name begins with neither \<open>[Gmail]\<close> nor
  \<open>[Google Mail]\<close>; no folder of the list is a spelling of All Mail.
\<close>

theorem source_folders_characterised:
  assumes "\<forall>f\<in>set all_folders. is_gmail_all_mail_folder f \<longrightarrow> prefix ''[Gmail]'' f \<or> prefix ''[Google Mail]'' f"
  shows "res (get_gmail_source_folders S) s = source_folders_of (res (list_folders S) s) \<and>
         set (source_folders_of all_folders) =
           {f \<in> set all_folders. f = ''INBOX'' \<or> f \<in> set gmail_source_patterns \<or>
                  (\<not> prefix ''[Gmail]'' f \<and> \<not> prefix ''[Google Mail]'' f)} \<and>
         (\<forall>f\<in>set (source_folders_of all_folders). \<not> is_gmail_all_mail_folder f)"
  using assms patterns_not_all_mail inbox_not_all_mail
  by (auto simp: res_get_gmail_source_folders set_source_folders_of)


theorem source_folders_characterised_witness:
  "set (source_folders_of [''INBOX'', ''[Gmail]/All Mail'', ''[Gmail]/Sent Mail'', ''[Gmail]/Trash'', ''Work'']) =
     {''INBOX'', ''[Gmail]/Sent Mail'', ''Work''} \<and>
   \<not> is_gmail_all_mail_folder ''Work''"
proof -
  let ?fs = "[''INBOX'', ''[Gmail]/All Mail'', ''[Gmail]/Sent Mail'', ''[Gmail]/Trash'', ''Work'']"
  have h: "\<forall>f\<in>set ?fs. is_gmail_all_mail_folder f \<longrightarrow> prefix ''[Gmail]'' f \<or> prefix ''[Google Mail]'' f"
    by (simp add: is_gmail_all_mail_folder_def)
  have w: "''Work'' \<in> set (source_folders_of ?fs)" by code_simp
  have e: "source_folders_of ?fs = [''INBOX'', ''[Gmail]/Sent Mail'', ''Work'']" by code_simp
  from source_folders_characterised [OF h, of mail_server "start []"] w
  have "\<not> is_gmail_all_mail_folder ''Work''" by blast
  then show ?thesis unfolding e by auto
qed


section \<open>Command sequences: proofs\<close>






lemma conn_ev_sel_clean: "conn_ev e \<Longrightarrow> sel_clean e"
  by (auto simp: conn_ev_def sel_clean_def is_gmail_all_mail_folder_def)


lemma ensure_sel_clean: "list_all sel_clean (evs (ensure_connection S) s)"
  by (rule list_all_weaken [OF evs_ensure_connection]) (rule conn_ev_sel_clean)


lemma try_variations_sel_clean:
  "list_all (\<lambda>c. \<not> is_gmail_all_mail_folder c) vs \<Longrightarrow> list_all sel_clean (evs (try_variations S vs) s)"
  by (induction vs arbitrary: s) (auto simp: sel_clean_def)



lemma select_folder_sel_clean:
  "clean_folder f \<Longrightarrow> list_all sel_clean (evs (select_folder S f) s)"
  by (simp add: select_folder_def ensure_sel_clean try_variations_sel_clean clean_folder_def)
     (simp add: sel_clean_def)











section \<open>Runs on the All Mail folder alone: proofs\<close>

lemma fst_add_to_group: "fst ` set (add_to_group g f i) = insert f (fst ` set g)"
  by (induction g f i rule: add_to_group.induct) auto

lemma fst_foldl_groups:
  "fst ` set (foldl (\<lambda>groups (email_id, folder). add_to_group groups folder email_id) acc pairs) =
     fst ` set acc \<union> snd ` set pairs"
  by (induction pairs arbitrary: acc) (simp_all add: fst_add_to_group case_prod_beta)

lemma fst_group_by_folder: "fst ` set (group_by_folder pairs) = snd ` set pairs"
  by (simp add: group_by_folder_def fst_foldl_groups)

lemma search_multi_folders:
  "snd ` set (res (search_old_emails_multiple_folders L S c fs) s) \<subseteq> set fs"
  by (induction fs arbitrary: s) auto
















section \<open>Fast and logged runs: proofs\<close>

lemma connection_connect: "res (connect S) s \<Longrightarrow> connection (post (connect S) s)"
  by (auto simp: connect_def split: reply.splits if_splits)

lemma ensure_quiet:
  assumes "quiet S" "connection s"
  shows "res (ensure_connection S) s" "post (ensure_connection S) s = s"
    "list_all is_probe (evs (ensure_connection S) s)"
  using assms by (simp_all add: ensure_connection_def quiet_def is_probe_def)

lemma connection_ensure:
  assumes "quiet S" "res (ensure_connection S) s"
  shows "connection (post (ensure_connection S) s)"
proof (cases "connection s")
  case True
  with assms(1) show ?thesis by (simp add: ensure_quiet)
next
  case False
  with assms(2) show ?thesis by (simp add: ensure_connection_def connection_connect)
qed

lemma connection_try_variations:
  "connection (post (try_variations S vs) s) = connection s"
  by (induction vs arbitrary: s) auto

lemma connection_select_folder:
  assumes "quiet S" "res (select_folder S f) s"
  shows "connection (post (select_folder S f) s)"
proof -
  from assms(2) have "res (ensure_connection S) s"
    by (auto simp: select_folder_def split: if_splits)
  with connection_ensure [OF assms(1) this] show ?thesis
    by (simp add: select_folder_def connection_try_variations)
qed

lemma metadata_quiet:
  assumes "quiet S" "connection s"
  shows "post (get_email_metadata L S i) s = s" "list_all is_probe (evs (get_email_metadata L S i) s)"
  using assms ensure_quiet [OF assms]
  by (simp_all add: get_email_metadata_def get_connection_eq quiet_def is_probe_def)

lemma preview_quiet:
  assumes "quiet S" "connection s"
  shows "post (preview L S ids) s = s \<and> list_all is_probe (evs (preview L S ids) s)"
  using assms by (induction ids) (simp_all add: metadata_quiet)

lemma chunks_Nil: "chunks n [] = []"
  by (subst chunks.simps) simp

lemma chunks_single: "0 < n \<Longrightarrow> xs \<noteq> [] \<Longrightarrow> length xs \<le> n \<Longrightarrow> chunks n xs = [xs]"
  by (subst chunks.simps) (simp add: chunks_Nil)

lemma batches_single:
  "0 < b \<Longrightarrow> ids \<noteq> [] \<Longrightarrow> int (length ids) \<le> b \<Longrightarrow> batches b ids = [ids]"
  by (simp add: batches_def chunks_single)

lemma add_to_group_nonempty:
  "\<forall>g\<in>set groups. snd g \<noteq> [] \<Longrightarrow> \<forall>g\<in>set (add_to_group groups f i). snd g \<noteq> []"
  by (induction groups f i rule: add_to_group.induct) auto

lemma foldl_groups_nonempty:
  "\<forall>g\<in>set acc. snd g \<noteq> [] \<Longrightarrow>
   \<forall>g\<in>set (foldl (\<lambda>groups (email_id, folder). add_to_group groups folder email_id) acc pairs). snd g \<noteq> []"
proof (induction pairs arbitrary: acc)
  case Nil then show ?case by simp
next
  case (Cons p pairs)
  obtain i f where p: "p = (i, f)" by (cases p)
  from Cons.prems have "\<forall>g\<in>set (add_to_group acc f i). snd g \<noteq> []" by (rule add_to_group_nonempty)
  from Cons.IH [OF this] show ?case by (simp add: p)
qed

lemma group_by_folder_nonempty: "g \<in> set (group_by_folder pairs) \<Longrightarrow> snd g \<noteq> []"
  using foldl_groups_nonempty [of "[]" pairs] by (simp add: group_by_folder_def)

lemma filter_probes: "list_all is_probe es \<Longrightarrow> filter (\<lambda>e. \<not> is_probe e) es = []"
  by (induction es) auto

lemma loops_agree:
  assumes q: "quiet S" and b: "0 < b"
  shows "\<forall>g\<in>set groups. \<not> is_gmail_all_mail_folder (fst g) \<and> snd g \<noteq> [] \<and> int (length (snd g)) \<le> b \<Longrightarrow>
         res (logged_loop L S c b groups) s = Inr (res (fast_loop S groups) s) \<and>
         post (logged_loop L S c b groups) s = post (fast_loop S groups) s \<and>
         filter (\<lambda>e. \<not> is_probe e) (evs (logged_loop L S c b groups) s) =
           filter (\<lambda>e. \<not> is_probe e) (evs (fast_loop S groups) s)"
proof (induction groups arbitrary: s)
  case Nil
  then show ?case by simp
next
  case (Cons g groups)
  obtain folder ids where g: "g = (folder, ids)" by (cases g)
  from Cons.prems g have nam: "\<not> is_gmail_all_mail_folder folder" and ne: "ids \<noteq> []"
    and le: "int (length ids) \<le> b"
    and rest: "\<forall>g\<in>set groups. \<not> is_gmail_all_mail_folder (fst g) \<and> snd g \<noteq> [] \<and> int (length (snd g)) \<le> b"
    by auto
  note IH = Cons.IH [OF rest]
  let ?s1 = "post (select_folder S folder) s"
  show ?case
  proof (cases "res (select_folder S folder) s")
    case False
    with IH [of ?s1] show ?thesis by (simp add: g)
  next
    case True
    have conn: "connection ?s1" by (rule connection_select_folder [OF q True])
    note pq = preview_quiet [OF q conn, of L "take 3 ids"]
    have bs: "batches b ids = [ids]" by (rule batches_single [OF b ne le])
    let ?n = "res (delete_emails_bulk S ids) ?s1"
    let ?s2 = "post (delete_emails_bulk S ids) ?s1"
    let ?ex = "if 0 < ?n then bind (expunge_deleted_emails S) (\<lambda>_. ret ()) else (ret () :: ('a, unit) io)"
    let ?s3 = "post ?ex ?s2"
    from b have b0: "b \<noteq> 0" by simp
    show ?thesis
      using True nam pq bs b0 IH [of ?s3]
      by (simp add: g filter_probes add_deleted_def)
  qed
qed


lemma search_folders_folders: "snd ` set (res (search_folders L S c folders) s) \<subseteq> set folders"
proof (cases folders)
  case Nil
  then show ?thesis by (simp add: search_folders_def)
next
  case (Cons f fs)
  show ?thesis
  proof (cases fs)
    case Nil
    with Cons show ?thesis by (auto simp: search_folders_def)
  next
    case (Cons f' fs')
    with \<open>folders = f # fs\<close> have "search_folders L S c folders = search_old_emails_multiple_folders L S c folders"
      by (simp add: search_folders_def)
    then show ?thesis using search_multi_folders [of L S c folders s] by simp
  qed
qed

lemma filter_probes_stores:
  "list_all is_probe es \<Longrightarrow> filter (\<lambda>e. \<not> is_probe e \<and> \<not> is_store e) es = []"
  by (induction es) auto

lemma delete_store_kind: "\<not> is_probe (delete_store ids, r)" "is_store (delete_store ids, r)"
  by (simp_all add: is_probe_def is_store_def delete_store_def)

lemma bulk_quiet:
  assumes "quiet S" "connection s" "ids \<noteq> []"
  shows "res (delete_emails_bulk S ids) s =
           (if is_ok (fst (S (server s) (delete_store ids))) then length ids else 0)"
    and "post (delete_emails_bulk S ids) s = s\<lparr>server := snd (S (server s) (delete_store ids))\<rparr>"
    and "filter (\<lambda>e. \<not> is_probe e \<and> \<not> is_store e) (evs (delete_emails_bulk S ids) s) = []"
    and "filter (\<lambda>e. \<not> is_probe e) (evs (delete_emails_bulk S ids) s) =
           [(delete_store ids, fst (S (server s) (delete_store ids)))]"
  using assms ensure_quiet [OF assms(1,2)]
  by (simp_all add: delete_emails_bulk_def get_connection_eq delete_store_def [symmetric]
        filter_probes filter_probes_stores delete_store_kind)

lemma batches_agree:
  assumes q: "quiet S" and sp: "stores_split S"
  shows "connection s \<Longrightarrow> 0 < n \<Longrightarrow> ids \<noteq> [] \<Longrightarrow>
         res (delete_batches S (chunks n ids)) s = res (delete_emails_bulk S ids) s \<and>
         post (delete_batches S (chunks n ids)) s = post (delete_emails_bulk S ids) s \<and>
         filter (\<lambda>e. \<not> is_probe e \<and> \<not> is_store e) (evs (delete_batches S (chunks n ids)) s) = []"
proof (induction n ids arbitrary: s rule: chunks.induct)
  case (1 n ids)
  show ?case
  proof (cases "length ids \<le> n")
    case True
    with 1(3,4) have "chunks n ids = [ids]" by (simp add: chunks_single)
    then show ?thesis using bulk_quiet [OF q 1(2) 1(4)] by simp
  next
    case False
    let ?a = "take n ids" and ?r = "drop n ids"
    from False 1(3) have a: "?a \<noteq> []" and r: "?r \<noteq> []" by auto
    have ids: "ids = ?a @ ?r" by simp
    from 1(3,4) have ch: "chunks n ids = ?a # chunks n ?r" by (subst chunks.simps) simp
    let ?s1 = "post (delete_emails_bulk S ?a) s"
    have c1: "connection ?s1" using bulk_quiet(2) [OF q 1(2) a] 1(2) by simp
    from 1(1) [OF _ c1 1(3) r] 1(3,4)
    have IH: "res (delete_batches S (chunks n ?r)) ?s1 = res (delete_emails_bulk S ?r) ?s1"
      "post (delete_batches S (chunks n ?r)) ?s1 = post (delete_emails_bulk S ?r) ?s1"
      "filter (\<lambda>e. \<not> is_probe e \<and> \<not> is_store e) (evs (delete_batches S (chunks n ?r)) ?s1) = []"
      by simp_all
    let ?ok = "is_ok (fst (S (server s) (delete_store ids)))"
    let ?sv1 = "snd (S (server s) (delete_store ?a))"
    from sp a r have "is_ok (fst (S (server s) (delete_store ?a))) = is_ok (fst (S (server s) (delete_store (?a @ ?r)))) \<and>
       is_ok (fst (S ?sv1 (delete_store ?r))) = is_ok (fst (S (server s) (delete_store (?a @ ?r)))) \<and>
       snd (S ?sv1 (delete_store ?r)) = snd (S (server s) (delete_store (?a @ ?r)))"
      unfolding stores_split_def by blast
    then have s1: "is_ok (fst (S (server s) (delete_store ?a))) = ?ok"
      and s2: "is_ok (fst (S ?sv1 (delete_store ?r))) = ?ok"
      and s3: "snd (S ?sv1 (delete_store ?r)) = snd (S (server s) (delete_store ids))"
      by simp_all
    have P1: "?s1 = s\<lparr>server := ?sv1\<rparr>" by (rule bulk_quiet(2) [OF q 1(2) a])
    have R1: "res (delete_emails_bulk S ?a) s = (if ?ok then length ?a else 0)"
      using bulk_quiet(1) [OF q 1(2) a] s1 by simp
    have R2: "res (delete_emails_bulk S ?r) ?s1 = (if ?ok then length ?r else 0)"
      using bulk_quiet(1) [OF q c1 r] s2 unfolding P1 by simp
    have P2: "post (delete_emails_bulk S ?r) ?s1 = s\<lparr>server := snd (S (server s) (delete_store ids))\<rparr>"
      using bulk_quiet(2) [OF q c1 r] s3 unfolding P1 by simp
    have la: "length ?a + length ?r = length ids" by simp
    have res: "res (delete_batches S (chunks n ids)) s = res (delete_emails_bulk S ids) s"
      unfolding ch using IH(1) R1 R2 la bulk_quiet(1) [OF q 1(2) 1(4)]
      by (simp del: length_take length_drop)
    have post: "post (delete_batches S (chunks n ids)) s = post (delete_emails_bulk S ids) s"
      unfolding ch using IH(2) P2 bulk_quiet(2) [OF q 1(2) 1(4)] by simp
    have evs: "filter (\<lambda>e. \<not> is_probe e \<and> \<not> is_store e) (evs (delete_batches S (chunks n ids)) s) = []"
      unfolding ch using IH(3) bulk_quiet(3) [OF q 1(2) a] by simp
    from res post evs show ?thesis by simp
  qed
qed


lemma batches_agree_int:
  assumes "quiet S" "stores_split S" "connection s" "0 < b" "ids \<noteq> []"
  shows "res (delete_batches S (batches b ids)) s = res (delete_emails_bulk S ids) s \<and>
         post (delete_batches S (batches b ids)) s = post (delete_emails_bulk S ids) s \<and>
         filter (\<lambda>e. \<not> is_probe e \<and> \<not> is_store e) (evs (delete_batches S (batches b ids)) s) = []"
  using batches_agree [OF assms(1,2,3) _ assms(5), of "nat b"] assms(4) by (simp add: batches_def)

lemma loops_agree_split:
  assumes q: "quiet S" and b: "0 < b" and sp: "stores_split S"
  shows "\<forall>g\<in>set groups. \<not> is_gmail_all_mail_folder (fst g) \<and> snd g \<noteq> [] \<Longrightarrow>
         res (logged_loop L S c b groups) s = Inr (res (fast_loop S groups) s) \<and>
         post (logged_loop L S c b groups) s = post (fast_loop S groups) s \<and>
         filter (\<lambda>e. \<not> is_probe e \<and> \<not> is_store e) (evs (logged_loop L S c b groups) s) =
           filter (\<lambda>e. \<not> is_probe e \<and> \<not> is_store e) (evs (fast_loop S groups) s)"
proof (induction groups arbitrary: s)
  case Nil
  then show ?case by simp
next
  case (Cons g groups)
  obtain folder ids where g: "g = (folder, ids)" by (cases g)
  from Cons.prems g have nam: "\<not> is_gmail_all_mail_folder folder" and ne: "ids \<noteq> []"
    and rest: "\<forall>g\<in>set groups. \<not> is_gmail_all_mail_folder (fst g) \<and> snd g \<noteq> []"
    by auto
  note IH = Cons.IH [OF rest]
  let ?s1 = "post (select_folder S folder) s"
  show ?case
  proof (cases "res (select_folder S folder) s")
    case False
    with IH [of ?s1] show ?thesis by (simp add: g)
  next
    case True
    have conn: "connection ?s1" by (rule connection_select_folder [OF q True])
    note pq = preview_quiet [OF q conn, of L "take 3 ids"]
    note ba = batches_agree_int [OF q sp conn b ne]
    let ?n = "res (delete_emails_bulk S ids) ?s1"
    let ?s2 = "post (delete_emails_bulk S ids) ?s1"
    let ?ex = "if 0 < ?n then bind (expunge_deleted_emails S) (\<lambda>_. ret ()) else (ret () :: ('a, unit) io)"
    let ?s3 = "post ?ex ?s2"
    from b have b0: "b \<noteq> 0" by simp
    show ?thesis
      using True nam pq ba b0 IH [of ?s3] bulk_quiet(3) [OF q conn ne]
      by (simp add: g filter_probes_stores add_deleted_def)
  qed
qed

lemma join_append:
  "xs \<noteq> [] \<Longrightarrow> ys \<noteq> [] \<Longrightarrow> join sep (xs @ ys) = join sep xs @ sep @ join sep ys"
proof (induction xs)
  case Nil then show ?case by simp
next
  case (Cons x xs)
  show ?case
  proof (cases xs)
    case Nil
    with Cons.prems show ?thesis by (cases ys) simp_all
  next
    case (Cons x' xs')
    with Cons.IH Cons.prems show ?thesis by simp
  qed
qed

lemma split_append: "split c (a @ c # b) = split c a @ split c b"
  by (induction a) (auto split: list.splits simp: split_nonempty)

lemma stores_split_mail_server: "stores_split mail_server"
proof -
  have j: "split CHR '','' (join '','' (xs @ ys)) = split CHR '','' (join '','' xs) @ split CHR '','' (join '','' ys)"
    if "xs \<noteq> []" "ys \<noteq> []" for xs ys :: "string list"
    using that by (simp add: join_append split_append)
  show ?thesis
    unfolding stores_split_def
    by (auto simp: mail_server_def delete_store_def is_ok_def j Let_def split: option.splits)
qed


text \<open>
  Claim C2, as stated, fails in two ways. On the folders \<open>INBOX\<close> and
  \<open>[Gmail]/All Mail\<close>, each holding one old message, the fast run flags and expunges
  the message in All Mail and reports 2, while the logged run leaves the message in All
  Mail and reports 1. And on a server that refuses a store naming more than two
  identifiers, with three old messages in \<open>INBOX\<close>, the fast run sends one store,
  deletes nothing and reports 0, while the logged run with batch size 2 deletes all
  three.
\<close>

theorem fast_and_logged_differ_on_all_mail:
  "res (delete_old_emails_fast plain_lib mail_server ''01-Jul-2023'' [''INBOX'', ''[Gmail]/All Mail''])
       (start [(''INBOX'', [''1'']), (''[Gmail]/All Mail'', [''1''])]) = 2 \<and>
   server (post (delete_old_emails_fast plain_lib mail_server ''01-Jul-2023'' [''INBOX'', ''[Gmail]/All Mail''])
       (start [(''INBOX'', [''1'']), (''[Gmail]/All Mail'', [''1''])])) =
     (Some ''[Gmail]/All Mail'', [(''INBOX'', []), (''[Gmail]/All Mail'', [])], []) \<and>
   \<not> safe None (evs (delete_old_emails_fast plain_lib mail_server ''01-Jul-2023'' [''INBOX'', ''[Gmail]/All Mail''])
       (start [(''INBOX'', [''1'']), (''[Gmail]/All Mail'', [''1''])])) \<and>
   res (delete_old_emails_with_logging plain_lib mail_server ''01-Jul-2023'' [''INBOX'', ''[Gmail]/All Mail''] 500)
       (start [(''INBOX'', [''1'']), (''[Gmail]/All Mail'', [''1''])]) = Inr 1 \<and>
   server (post (delete_old_emails_with_logging plain_lib mail_server ''01-Jul-2023'' [''INBOX'', ''[Gmail]/All Mail''] 500)
       (start [(''INBOX'', [''1'']), (''[Gmail]/All Mail'', [''1''])])) =
     (Some ''INBOX'', [(''INBOX'', []), (''[Gmail]/All Mail'', [''1''])], []) \<and>
   safe None (evs (delete_old_emails_with_logging plain_lib mail_server ''01-Jul-2023'' [''INBOX'', ''[Gmail]/All Mail''] 500)
       (start [(''INBOX'', [''1'']), (''[Gmail]/All Mail'', [''1''])])) \<and>
   res (delete_old_emails_fast plain_lib (limited_server 2) ''01-Jul-2023'' [''INBOX''])
       (start [(''INBOX'', [''1'', ''2'', ''3''])]) = 0 \<and>
   server (post (delete_old_emails_fast plain_lib (limited_server 2) ''01-Jul-2023'' [''INBOX''])
       (start [(''INBOX'', [''1'', ''2'', ''3''])])) = (Some ''INBOX'', [(''INBOX'', [''1'', ''2'', ''3''])], []) \<and>
   res (delete_old_emails_with_logging plain_lib (limited_server 2) ''01-Jul-2023'' [''INBOX''] 2)
       (start [(''INBOX'', [''1'', ''2'', ''3''])]) = Inr 3 \<and>
   server (post (delete_old_emails_with_logging plain_lib (limited_server 2) ''01-Jul-2023'' [''INBOX''] 2)
       (start [(''INBOX'', [''1'', ''2'', ''3''])])) = (Some ''INBOX'', [(''INBOX'', [])], [])"
  by code_simp

text \<open>
  Claim C2, amended. Let no folder of the set be a spelling of All Mail, let the batch
  size be positive, and let the server be quiet (the connection probe succeeds, and
  neither it nor a fetch changes the server state). When the identifiers found in each
  folder fit in one batch, the fast run and the logged run return the same count, leave
  the session and the server in the same state, and send the same commands with the
  same replies in the same order, apart from connection probes and the fetches of the
  preview. When the logged run has to split a folder's identifiers into several
  batches, the same holds on every server that treats a store of the deleted flag sent
  in consecutive pieces like the same store sent whole (same status, same resulting
  state): same count, same final state, and the same commands and replies apart from
  probes, preview fetches and the stores themselves.
\<close>

theorem fast_matches_logged:
  assumes "\<forall>f\<in>set folders. \<not> is_gmail_all_mail_folder f"
      and "quiet S"
      and "0 < batch_size"
  shows "((\<forall>g\<in>set (group_by_folder (res (search_folders L S c folders) s)).
             int (length (snd g)) \<le> batch_size) \<longrightarrow>
          res (delete_old_emails_with_logging L S c folders batch_size) s =
            Inr (res (delete_old_emails_fast L S c folders) s) \<and>
          post (delete_old_emails_with_logging L S c folders batch_size) s =
            post (delete_old_emails_fast L S c folders) s \<and>
          filter (\<lambda>e. \<not> is_probe e) (evs (delete_old_emails_with_logging L S c folders batch_size) s) =
            filter (\<lambda>e. \<not> is_probe e) (evs (delete_old_emails_fast L S c folders) s)) \<and>
         (stores_split S \<longrightarrow>
          res (delete_old_emails_with_logging L S c folders batch_size) s =
            Inr (res (delete_old_emails_fast L S c folders) s) \<and>
          post (delete_old_emails_with_logging L S c folders batch_size) s =
            post (delete_old_emails_fast L S c folders) s \<and>
          filter (\<lambda>e. \<not> is_probe e \<and> \<not> is_store e)
              (evs (delete_old_emails_with_logging L S c folders batch_size) s) =
            filter (\<lambda>e. \<not> is_probe e \<and> \<not> is_store e)
              (evs (delete_old_emails_fast L S c folders) s))"
proof -
  let ?pairs = "res (search_folders L S c folders) s"
  let ?s1 = "post (search_folders L S c folders) s"
  let ?groups = "group_by_folder ?pairs"
  have nf: "\<not> (length folders = 1 \<and> is_gmail_all_mail_folder (hd folders))"
    using assms(1) by (cases folders) auto
  have eq: "delete_old_emails_fast L S c folders =
      bind (search_folders L S c folders) (\<lambda>email_folder_pairs.
             if email_folder_pairs = [] then ret 0
             else bind (fast_loop S (group_by_folder email_folder_pairs)) (\<lambda>total_deleted.
                  bind (set_emails_deleted total_deleted) (\<lambda>_. ret total_deleted)))"
    using nf unfolding delete_old_emails_fast_def by (simp only: if_False)
  have gr: "\<forall>g\<in>set ?groups. \<not> is_gmail_all_mail_folder (fst g) \<and> snd g \<noteq> []"
  proof
    fix g assume g: "g \<in> set ?groups"
    then have "fst g \<in> snd ` set ?pairs" using fst_group_by_folder [of ?pairs] by blast
    then have "fst g \<in> set folders" using search_folders_folders by blast
    with assms(1) group_by_folder_nonempty [OF g]
    show "\<not> is_gmail_all_mail_folder (fst g) \<and> snd g \<noteq> []" by blast
  qed
  have A: "res (delete_old_emails_with_logging L S c folders batch_size) s =
            Inr (res (delete_old_emails_fast L S c folders) s) \<and>
          post (delete_old_emails_with_logging L S c folders batch_size) s =
            post (delete_old_emails_fast L S c folders) s \<and>
          filter (\<lambda>e. \<not> is_probe e) (evs (delete_old_emails_with_logging L S c folders batch_size) s) =
            filter (\<lambda>e. \<not> is_probe e) (evs (delete_old_emails_fast L S c folders) s)"
    if fits: "\<forall>g\<in>set ?groups. int (length (snd g)) \<le> batch_size"
  proof -
    from fits gr have "\<forall>g\<in>set ?groups. \<not> is_gmail_all_mail_folder (fst g) \<and> snd g \<noteq> [] \<and>
                    int (length (snd g)) \<le> batch_size" by blast
    note la = loops_agree [OF assms(2,3) this, of L c ?s1]
    show ?thesis
      unfolding eq delete_old_emails_with_logging_def using la by simp
  qed
  have B: "res (delete_old_emails_with_logging L S c folders batch_size) s =
            Inr (res (delete_old_emails_fast L S c folders) s) \<and>
          post (delete_old_emails_with_logging L S c folders batch_size) s =
            post (delete_old_emails_fast L S c folders) s \<and>
          filter (\<lambda>e. \<not> is_probe e \<and> \<not> is_store e)
              (evs (delete_old_emails_with_logging L S c folders batch_size) s) =
            filter (\<lambda>e. \<not> is_probe e \<and> \<not> is_store e)
              (evs (delete_old_emails_fast L S c folders) s)"
    if sp: "stores_split S"
  proof -
    note la = loops_agree_split [OF assms(2,3) sp gr, of L c ?s1]
    show ?thesis
      unfolding eq delete_old_emails_with_logging_def using la by simp
  qed
  from A B show ?thesis by blast
qed
theorem fast_matches_logged_witness:
  "res (delete_old_emails_with_logging plain_lib mail_server ''01-Jul-2023'' [''INBOX'', ''Work''] 500)
       (start [(''INBOX'', [''1'', ''2'']), (''Work'', [''3''])]) = Inr 3 \<and>
   post (delete_old_emails_with_logging plain_lib mail_server ''01-Jul-2023'' [''INBOX'', ''Work''] 500)
       (start [(''INBOX'', [''1'', ''2'']), (''Work'', [''3''])]) =
   post (delete_old_emails_fast plain_lib mail_server ''01-Jul-2023'' [''INBOX'', ''Work''])
       (start [(''INBOX'', [''1'', ''2'']), (''Work'', [''3''])]) \<and>
   res (delete_old_emails_with_logging plain_lib mail_server ''01-Jul-2023'' [''INBOX''] 3)
       (start [(''INBOX'', [''1'', ''2'', ''3'', ''4'', ''5'', ''6'', ''7''])]) = Inr 7 \<and>
   post (delete_old_emails_with_logging plain_lib mail_server ''01-Jul-2023'' [''INBOX''] 3)
       (start [(''INBOX'', [''1'', ''2'', ''3'', ''4'', ''5'', ''6'', ''7''])]) =
   post (delete_old_emails_fast plain_lib mail_server ''01-Jul-2023'' [''INBOX''])
       (start [(''INBOX'', [''1'', ''2'', ''3'', ''4'', ''5'', ''6'', ''7''])])"
proof -
  let ?s = "start [(''INBOX'', [''1'', ''2'']), (''Work'', [''3''])]"
  let ?t = "start [(''INBOX'', [''1'', ''2'', ''3'', ''4'', ''5'', ''6'', ''7''])]"
  have a: "\<forall>f\<in>set [''INBOX'', ''Work'']. \<not> is_gmail_all_mail_folder f"
    by (simp add: is_gmail_all_mail_folder_def)
  have a': "\<forall>f\<in>set [''INBOX'']. \<not> is_gmail_all_mail_folder f"
    by (simp add: is_gmail_all_mail_folder_def)
  have q: "quiet mail_server"
    by (auto simp: quiet_def mail_server_def is_ok_def split: prod.splits option.splits)
  have b: "(0::int) < 500" and b': "(0::int) < 3" by simp_all
  have g: "\<forall>g\<in>set (group_by_folder (res (search_folders plain_lib mail_server ''01-Jul-2023'' [''INBOX'', ''Work'']) ?s)).
             int (length (snd g)) \<le> 500"
    by code_simp
  have r: "res (delete_old_emails_fast plain_lib mail_server ''01-Jul-2023'' [''INBOX'', ''Work'']) ?s = 3"
    by code_simp
  have r': "res (delete_old_emails_fast plain_lib mail_server ''01-Jul-2023'' [''INBOX'']) ?t = 7"
    by code_simp
  from fast_matches_logged [OF a q b, of plain_lib "''01-Jul-2023''" ?s] g r
  have 1: "res (delete_old_emails_with_logging plain_lib mail_server ''01-Jul-2023'' [''INBOX'', ''Work''] 500) ?s = Inr 3"
    and 2: "post (delete_old_emails_with_logging plain_lib mail_server ''01-Jul-2023'' [''INBOX'', ''Work''] 500) ?s =
            post (delete_old_emails_fast plain_lib mail_server ''01-Jul-2023'' [''INBOX'', ''Work'']) ?s"
    by simp_all
  from fast_matches_logged [OF a' q b', of plain_lib "''01-Jul-2023''" ?t] stores_split_mail_server r'
  have 3: "res (delete_old_emails_with_logging plain_lib mail_server ''01-Jul-2023'' [''INBOX''] 3) ?t = Inr 7"
    and 4: "post (delete_old_emails_with_logging plain_lib mail_server ''01-Jul-2023'' [''INBOX''] 3) ?t =
            post (delete_old_emails_fast plain_lib mail_server ''01-Jul-2023'' [''INBOX'']) ?t"
    by simp_all
  from 1 2 3 4 show ?thesis by simp
qed


end
